theory Spec2Isabelle
  imports Complex_Main "HOL-Library.Word"
begin

unbundle bit_operations_syntax

section \<open>Common data\<close>

text \<open>
  \<^verbatim>\<open>unsigned int\<close> values that are bit patterns (tags, communication flags, masks) are
  32-bit words, \<^verbatim>\<open>unsigned char\<close> flags are 8-bit words. Array indices and counts are
  natural numbers; where the source computes an index in \<^verbatim>\<open>unsigned int\<close> arithmetic
  (\<^verbatim>\<open>old_nparticles + idx\<close>, \<^verbatim>\<open>m*n_constraint+n\<close>) the 32-bit wrap-around is written
  out.

  \<^verbatim>\<open>Scalar\<close> and \<^verbatim>\<open>double\<close> are modelled by exact real numbers: rounding is outside
  the model. A \<^verbatim>\<open>Scalar4\<close> is a packed 4-tuple, a \<^verbatim>\<open>vec3<Scalar>\<close> a 3-tuple.
\<close>

type_synonym u32 = "32 word"
type_synonym u8 = "8 word"

datatype scalar4 = make_scalar4 (s4_x: real) (s4_y: real) (s4_z: real) (s4_w: real)

text \<open>A CUDA launch \<^verbatim>\<open>kernel<<<n_blocks, block_size>>>\<close> runs the thread body once for
  every global thread index \<^verbatim>\<open>blockIdx.x*blockDim.x + threadIdx.x\<close>. The model runs the
  threads one after the other in increasing index order; a body takes its index and the
  device state and returns the device state.\<close>

definition launch :: "nat \<Rightarrow> nat \<Rightarrow> (nat \<Rightarrow> 'st \<Rightarrow> 'st) \<Rightarrow> 'st \<Rightarrow> 'st" where
  "launch n_blocks block_size body st = fold body [0..<n_blocks * block_size] st"

section \<open>MPCD particle migration (mpcd/ParticleData.cu)\<close>

subsection \<open>Data\<close>

text \<open>\<^verbatim>\<open>mpcd::detail::pdata_element\<close>: the packed transfer element.\<close>

record pdata_element =
  pos :: scalar4
  vel :: scalar4
  tag :: u32
  comm_flag :: u32

text \<open>The arrays written by \<^verbatim>\<open>kernel::mark_removed_particles\<close>.\<close>

record mark_arrays =
  d_tmp_flag :: "u8 list"
  d_tmp_id :: "nat list"

text \<open>The arrays written by \<^verbatim>\<open>kernel::remove_particles\<close>: the packed output buffer and the
  alternate particle arrays.\<close>

record remove_arrays =
  d_out :: "pdata_element list"
  d_pos_alt :: "scalar4 list"
  d_vel_alt :: "scalar4 list"
  d_tag_alt :: "u32 list"
  d_comm_flags_alt :: "u32 list"

text \<open>The particle arrays written by \<^verbatim>\<open>kernel::add_particles\<close>.\<close>

record particle_arrays =
  d_pos :: "scalar4 list"
  d_vel :: "scalar4 list"
  d_tag :: "u32 list"
  d_comm_flags :: "u32 list"

subsection \<open>Flag classifier\<close>

text \<open>\<^verbatim>\<open>kernel::mark_removed_particles\<close>, one thread:
  \<^verbatim>\<open>if (idx >= N) return; d_tmp_id[idx] = idx;
  d_tmp_flag[idx] = (d_comm_flags[idx] & mask) ? 0 : 1;\<close>\<close>

definition mark_removed_particles_kernel ::
  "u32 list \<Rightarrow> u32 \<Rightarrow> nat \<Rightarrow> nat \<Rightarrow> mark_arrays \<Rightarrow> mark_arrays" where
  "mark_removed_particles_kernel comm_flags bitmask N idx st =
     (if idx \<ge> N then st
      else st\<lparr>d_tmp_id := (d_tmp_id st)[idx := idx],
              d_tmp_flag := (d_tmp_flag st)[idx := (if (comm_flags ! idx) AND bitmask \<noteq> 0 then 0 else 1)]\<rparr>)"

text \<open>The host function: \<^verbatim>\<open>run_block_size = min(block_size, max_block_size)\<close>,
  \<^verbatim>\<open>grid(N / run_block_size + 1)\<close>. The device limit \<^verbatim>\<open>max_block_size\<close> comes from
  \<^verbatim>\<open>cudaFuncGetAttributes\<close> and is a parameter.\<close>

definition mark_removed_particles ::
  "nat \<Rightarrow> mark_arrays \<Rightarrow> u32 list \<Rightarrow> u32 \<Rightarrow> nat \<Rightarrow> nat \<Rightarrow> mark_arrays" where
  "mark_removed_particles max_block_size st comm_flags bitmask N block_size =
     (let run_block_size = min block_size max_block_size
      in launch (N div run_block_size + 1) run_block_size
           (mark_removed_particles_kernel comm_flags bitmask N) st)"

subsection \<open>Stream partitioner\<close>

text \<open>Exclusive prefix sum with a running total.\<close>

fun exclusive_scan :: "nat \<Rightarrow> nat list \<Rightarrow> nat list" where
  "exclusive_scan acc [] = []"
| "exclusive_scan acc (v # vs) = acc # exclusive_scan (acc + v) vs"

text \<open>Modelled from the spec: \<^verbatim>\<open>cub::DevicePartition::Flagged\<close> is missing from the sources.
  The specification prescribes a prefix-sum based scatter: an exclusive prefix sum over
  the keep predicate gives each kept element its new slot, a second exclusive prefix sum
  over the complementary predicate, offset by the number \<open>K\<close> of kept elements, gives each
  removed element its new slot. An item is kept when its flag is nonzero.\<close>

definition Flagged :: "nat list \<Rightarrow> u8 list \<Rightarrow> nat list \<Rightarrow> nat \<Rightarrow> nat list \<times> nat" where
  "Flagged d_in d_flags d_out_buf N =
     (let keep = map (\<lambda>f. if f \<noteq> 0 then 1 else 0) (take N d_flags);
          drop_p = map (\<lambda>f. if f \<noteq> 0 then 0 else 1) (take N d_flags);
          K = sum_list keep;
          scan_keep = exclusive_scan 0 keep;
          scan_drop = exclusive_scan 0 drop_p;
          slot = (\<lambda>i. if d_flags ! i \<noteq> 0 then scan_keep ! i else K + scan_drop ! i)
      in (fold (\<lambda>i out. out[slot i := d_in ! i]) [0..<N] d_out_buf, K))"

text \<open>\<^verbatim>\<open>mpcd::gpu::partition_particles\<close>: returns the output array and
  \<^verbatim>\<open>*d_num_select\<close>. The temporary storage arguments carry no data of the model.\<close>

definition partition_particles :: "nat list \<Rightarrow> u8 list \<Rightarrow> nat list \<Rightarrow> nat \<Rightarrow> nat list \<times> nat" where
  "partition_particles d_ids d_flags d_out_buf N = Flagged d_ids d_flags d_out_buf N"

text \<open>The reference the partitioner is compared with: a stable two-way partition of the
  index range, the indices with a nonzero flag first, each group in increasing order.\<close>

definition stable_partition :: "u8 list \<Rightarrow> nat \<Rightarrow> nat list" where
  "stable_partition d_flags N =
     filter (\<lambda>i. d_flags ! i \<noteq> 0) [0..<N] @ filter (\<lambda>i. d_flags ! i = 0) [0..<N]"

subsection \<open>Compactor: remove\<close>

text \<open>\<^verbatim>\<open>kernel::remove_particles\<close>, one thread. The thread reads the source index
  \<^verbatim>\<open>pid = d_scan[idx]\<close> and the four attributes of particle \<^verbatim>\<open>pid\<close>; a slot at or above
  \<^verbatim>\<open>n_keep\<close> is packed into \<^verbatim>\<open>d_out[idx - n_keep]\<close>, a slot below goes to the alternate
  arrays at \<^verbatim>\<open>idx\<close>.\<close>

definition remove_particles_kernel ::
  "nat \<Rightarrow> particle_arrays \<Rightarrow> nat list \<Rightarrow> nat \<Rightarrow> nat \<Rightarrow> remove_arrays \<Rightarrow> remove_arrays" where
  "remove_particles_kernel n_keep src d_scan N idx st =
     (if idx \<ge> N then st
      else
        let pid = d_scan ! idx;
            ppos = d_pos src ! pid;
            pvel = d_vel src ! pid;
            ptag = d_tag src ! pid;
            flag = d_comm_flags src ! pid
        in if idx \<ge> n_keep
           then st\<lparr>d_out := (d_out st)[idx - n_keep :=
                      \<lparr>pos = ppos, vel = pvel, tag = ptag, comm_flag = flag\<rparr>]\<rparr>
           else st\<lparr>d_pos_alt := (d_pos_alt st)[idx := ppos],
                   d_vel_alt := (d_vel_alt st)[idx := pvel],
                   d_tag_alt := (d_tag_alt st)[idx := ptag],
                   d_comm_flags_alt := (d_comm_flags_alt st)[idx := flag]\<rparr>)"

text \<open>The host function \<^verbatim>\<open>mpcd::gpu::remove_particles\<close>: block size 512,
  \<^verbatim>\<open>N/block_size+1\<close> blocks. Its second parameter, called \<^verbatim>\<open>mask\<close> in the source, is
  the one passed on as the kernel's \<^verbatim>\<open>n_keep\<close>, whose name it bears here.\<close>

definition remove_particles ::
  "remove_arrays \<Rightarrow> nat \<Rightarrow> particle_arrays \<Rightarrow> nat list \<Rightarrow> nat \<Rightarrow> remove_arrays" where
  "remove_particles st n_keep src d_scan N =
     (let block_size = 512; n_blocks = N div block_size + 1
      in launch n_blocks block_size (remove_particles_kernel n_keep src d_scan N) st)"

subsection \<open>Compactor: append\<close>

text \<open>\<^verbatim>\<open>kernel::add_particles\<close>, one thread:
  \<^verbatim>\<open>if (idx >= num_add_ptls) return; p = d_in[idx]; add_idx = old_nparticles + idx;\<close>
  then the four stores, the flag store being \<^verbatim>\<open>p.comm_flag & ~mask\<close>. The sum is an
  \<^verbatim>\<open>unsigned int\<close> and wraps at \<open>2^32\<close>.\<close>

definition add_particles_kernel ::
  "nat \<Rightarrow> nat \<Rightarrow> pdata_element list \<Rightarrow> u32 \<Rightarrow> nat \<Rightarrow> particle_arrays \<Rightarrow> particle_arrays" where
  "add_particles_kernel old_nparticles num_add_ptls d_in bitmask idx st =
     (if idx \<ge> num_add_ptls then st
      else
        let p = d_in ! idx;
            add_idx = (old_nparticles + idx) mod 2 ^ 32
        in st\<lparr>d_pos := (d_pos st)[add_idx := pos p],
              d_vel := (d_vel st)[add_idx := vel p],
              d_tag := (d_tag st)[add_idx := tag p],
              d_comm_flags := (d_comm_flags st)[add_idx := comm_flag p AND NOT bitmask]\<rparr>)"

text \<open>The host function \<^verbatim>\<open>mpcd::gpu::add_particles\<close>: block size 512,
  \<^verbatim>\<open>num_add_ptls/block_size + 1\<close> blocks.\<close>

definition add_particles ::
  "nat \<Rightarrow> nat \<Rightarrow> particle_arrays \<Rightarrow> pdata_element list \<Rightarrow> u32 \<Rightarrow> particle_arrays" where
  "add_particles old_nparticles num_add_ptls st d_in bitmask =
     (let block_size = 512; n_blocks = num_add_ptls div block_size + 1
      in launch n_blocks block_size (add_particles_kernel old_nparticles num_add_ptls d_in bitmask) st)"

section \<open>Distance constraints (ForceDistanceConstraintGPU.cu)\<close>

subsection \<open>Data\<close>

datatype vec3 = Vec3 (v3_x: real) (v3_y: real) (v3_z: real)

text \<open>Modelled from the spec: \<^verbatim>\<open>VectorMath.h\<close> is missing. The vector notation of the
  specification (difference, sum, scaling by a scalar, division by a scalar, dot product
  of 3-vectors) is component-wise arithmetic; \<^verbatim>\<open>vec3<Scalar>(Scalar4)\<close> keeps the first
  three components.\<close>

definition vec3_of :: "scalar4 \<Rightarrow> vec3" where
  "vec3_of s = Vec3 (s4_x s) (s4_y s) (s4_z s)"

definition vsub :: "vec3 \<Rightarrow> vec3 \<Rightarrow> vec3" where
  "vsub u v = Vec3 (v3_x u - v3_x v) (v3_y u - v3_y v) (v3_z u - v3_z v)"

definition vadd :: "vec3 \<Rightarrow> vec3 \<Rightarrow> vec3" where
  "vadd u v = Vec3 (v3_x u + v3_x v) (v3_y u + v3_y v) (v3_z u + v3_z v)"

definition vscale :: "real \<Rightarrow> vec3 \<Rightarrow> vec3" where
  "vscale c v = Vec3 (c * v3_x v) (c * v3_y v) (c * v3_z v)"

definition vdiv :: "vec3 \<Rightarrow> real \<Rightarrow> vec3" where
  "vdiv v c = Vec3 (v3_x v / c) (v3_y v / c) (v3_z v / c)"

definition dot :: "vec3 \<Rightarrow> vec3 \<Rightarrow> real" where
  "dot u v = v3_x u * v3_x v + v3_y u * v3_y v + v3_z u * v3_z v"

text \<open>\<^verbatim>\<open>group_storage<2>\<close>: an entry of the per-particle constraint table;
  \<^verbatim>\<open>idx[0]\<close> is the other particle of the constraint, \<^verbatim>\<open>idx[1]\<close> the constraint index.\<close>

datatype group_storage = Group2 (idx0: nat) (idx1: nat)

text \<open>The read-only arguments of the two kernels. The box enters through its
  \<^verbatim>\<open>minImage\<close> function and the table indexer \<^verbatim>\<open>Index2D\<close> through its call operator;
  both classes are declared outside the sources and are parameters.
  \<^verbatim>\<open>d_group_typeval\<close> holds the \<^verbatim>\<open>val\<close> member of each entry. The position and velocity
  arrays \<^verbatim>\<open>d_pos\<close>, \<^verbatim>\<open>d_vel\<close> of the kernels are the fields \<open>md_pos\<close>, \<open>md_vel\<close>.\<close>

record constraint_args =
  n_constraint :: nat
  nptl_local :: nat
  md_pos :: "scalar4 list"
  md_vel :: "scalar4 list"
  d_netforce :: "scalar4 list"
  d_gpu_clist :: "group_storage list"
  gpu_clist_indexer :: "nat \<Rightarrow> nat \<Rightarrow> nat"
  d_gpu_n_constraints :: "nat list"
  d_gpu_cpos :: "nat list"
  d_group_typeval :: "real list"
  deltaT :: real
  minImage :: "vec3 \<Rightarrow> vec3"

text \<open>The arrays written by the matrix-fill kernel.\<close>

record fill_arrays =
  d_matrix :: "real list"
  d_vec :: "real list"

text \<open>A store of the matrix-fill kernel: \<^verbatim>\<open>d_matrix[k] = v\<close> or \<^verbatim>\<open>d_vec[n] = v\<close>.
  The kernel never reads the two arrays it writes, so a thread is the list of its stores
  in program order and the kernel's effect is that of its stores.\<close>

datatype store = MatrixStore nat real | VecStore nat real

fun apply_store :: "store \<Rightarrow> fill_arrays \<Rightarrow> fill_arrays" where
  "apply_store (MatrixStore k v) st = st\<lparr>d_matrix := (d_matrix st)[k := v]\<rparr>"
| "apply_store (VecStore n v) st = st\<lparr>d_vec := (d_vec st)[n := v]\<rparr>"

fun matrix_stores :: "nat \<Rightarrow> store list \<Rightarrow> real list" where
  "matrix_stores k [] = []"
| "matrix_stores k (MatrixStore k' v # ws) = (if k' = k then v # matrix_stores k ws else matrix_stores k ws)"
| "matrix_stores k (VecStore n v # ws) = matrix_stores k ws"

fun vec_stores :: "nat \<Rightarrow> store list \<Rightarrow> real list" where
  "vec_stores n [] = []"
| "vec_stores n (VecStore n' v # ws) = (if n' = n then v # vec_stores n ws else vec_stores n ws)"
| "vec_stores n (MatrixStore k v # ws) = vec_stores n ws"

subsection \<open>Constraint matrix builder\<close>

text \<open>The endpoints of a constraint in their fixed order: the thread's particle is
  \<open>a\<close> when its position in the constraint is 0, \<open>b\<close> otherwise.\<close>

definition ordered_ends :: "nat \<Rightarrow> nat \<Rightarrow> nat \<Rightarrow> nat \<times> nat" where
  "ordered_ends cpos idx other = (if cpos = 0 then (idx, other) else (other, idx))"

text \<open>One pass of the inner loop (lines 132-179): the entry \<open>cidx_j\<close> of the neighbour's
  table row, the matrix element of the pair and its store. The cell index
  \<^verbatim>\<open>m*n_constraint+n\<close> is \<^verbatim>\<open>unsigned int\<close> arithmetic.\<close>

definition fill_inner ::
  "constraint_args \<Rightarrow> nat \<Rightarrow> nat \<Rightarrow> nat \<Rightarrow> vec3 \<Rightarrow> real \<Rightarrow> real \<Rightarrow> nat \<Rightarrow> nat \<Rightarrow> store" where
  "fill_inner a n idx_na idx_nb qn ma mb cur_constraint_idx_i cidx_j =
     (let cur_constraint_j = d_gpu_clist a ! gpu_clist_indexer a cur_constraint_idx_i cidx_j;
          cur_constraint_idx_j = idx0 cur_constraint_j;
          (idx_ma, idx_mb) =
             ordered_ends (d_gpu_cpos a ! gpu_clist_indexer a cur_constraint_idx_i cidx_j)
               cur_constraint_idx_i cur_constraint_idx_j;
          m = idx1 cur_constraint_j;
          rm = minImage a (vsub (vec3_of (md_pos a ! idx_ma)) (vec3_of (md_pos a ! idx_mb)));
          e0 = 0;
          e1 = (if idx_na = idx_ma then e0 + 4 * dot qn rm / ma else e0);
          e2 = (if idx_na = idx_mb then e1 - 4 * dot qn rm / ma else e1);
          e3 = (if idx_nb = idx_ma then e2 - 4 * dot qn rm / mb else e2);
          mat_element = (if idx_nb = idx_mb then e3 + 4 * dot qn rm / mb else e3)
      in MatrixStore ((m * n_constraint a + n) mod 2 ^ 32) mat_element)"

text \<open>One pass of the outer loop (lines 86-187): the entry \<open>cidx_i\<close> of the thread's own
  table row; the stores of the inner loop, then the store of the vector component when
  the guard of line 181 holds.\<close>

definition fill_outer :: "constraint_args \<Rightarrow> nat \<Rightarrow> nat \<Rightarrow> store list" where
  "fill_outer a idx cidx_i =
     (let cur_constraint_i = d_gpu_clist a ! gpu_clist_indexer a idx cidx_i;
          cur_constraint_idx_i = idx0 cur_constraint_i;
          n = idx1 cur_constraint_i;
          d = d_group_typeval a ! n;
          cpos = d_gpu_cpos a ! gpu_clist_indexer a idx cidx_i;
          (idx_na, idx_nb) = ordered_ends cpos idx cur_constraint_idx_i;
          rn = minImage a (vsub (vec3_of (md_pos a ! idx_na)) (vec3_of (md_pos a ! idx_nb)));
          ma = s4_w (md_vel a ! idx_na);
          mb = s4_w (md_vel a ! idx_nb);
          rndot = vsub (vec3_of (md_vel a ! idx_na)) (vec3_of (md_vel a ! idx_nb));
          qn = vadd rn (vscale (deltaT a) rndot);
          n_constraint_i = d_gpu_n_constraints a ! cur_constraint_idx_i
      in map (fill_inner a n idx_na idx_nb qn ma mb cur_constraint_idx_i) [0..<n_constraint_i]
         @ (if cpos = 0 \<or> idx_na \<ge> nptl_local a \<or> idx_nb \<ge> nptl_local a
            then [VecStore n ((dot qn qn - d * d) / deltaT a / deltaT a
                    + 2 * dot qn (vsub (vdiv (vec3_of (d_netforce a ! idx_na)) ma)
                                       (vdiv (vec3_of (d_netforce a ! idx_nb)) mb)))]
            else []))"

text \<open>\<^verbatim>\<open>gpu_fill_matrix_vector_kernel\<close>, one thread.\<close>

definition gpu_fill_matrix_vector_kernel :: "constraint_args \<Rightarrow> nat \<Rightarrow> store list" where
  "gpu_fill_matrix_vector_kernel a idx =
     (if idx \<ge> nptl_local a then []
      else concat (map (fill_outer a idx) [0..<d_gpu_n_constraints a ! idx]))"

text \<open>The stores of a whole launch, thread after thread.\<close>

definition fill_stores :: "constraint_args \<Rightarrow> nat \<Rightarrow> nat \<Rightarrow> store list" where
  "fill_stores a n_blocks block_size =
     concat (map (gpu_fill_matrix_vector_kernel a) [0..<n_blocks * block_size])"

text \<open>\<^verbatim>\<open>cudaMemset(p, 0, sizeof(double)*count)\<close>: the first \<open>count\<close> doubles become
  \<open>0.0\<close>.\<close>

definition memset_zero :: "real list \<Rightarrow> nat \<Rightarrow> real list" where
  "memset_zero xs count = replicate (min count (length xs)) 0 @ drop count xs"

text \<open>\<^verbatim>\<open>gpu_fill_matrix_vector\<close>: both arrays are reset, then the kernel runs.\<close>

definition gpu_fill_matrix_vector ::
  "nat \<Rightarrow> constraint_args \<Rightarrow> fill_arrays \<Rightarrow> nat \<Rightarrow> fill_arrays" where
  "gpu_fill_matrix_vector max_block_size a st block_size =
     (let run_block_size = min block_size max_block_size;
          n_blocks = nptl_local a div run_block_size + 1;
          st1 = st\<lparr>d_vec := memset_zero (d_vec st) (n_constraint a)\<rparr>;
          st2 = st1\<lparr>d_matrix := memset_zero (d_matrix st1) (n_constraint a * n_constraint a)\<rparr>
      in fold apply_store (fill_stores a n_blocks run_block_size) st2)"

subsection \<open>Constraint force writeback\<close>

text \<open>One pass of the loop of \<^verbatim>\<open>gpu_fill_constraint_forces_kernel\<close> (lines 266-310): the
  accumulated force after entry \<open>cidx\<close>.\<close>

definition force_step :: "constraint_args \<Rightarrow> real list \<Rightarrow> nat \<Rightarrow> nat \<Rightarrow> vec3 \<Rightarrow> vec3" where
  "force_step a d_lagrange idx cidx f =
     (let cur_constraint = d_gpu_clist a ! gpu_clist_indexer a idx cidx;
          cur_constraint_idx = idx0 cur_constraint;
          n = idx1 cur_constraint;
          cpos = d_gpu_cpos a ! gpu_clist_indexer a idx cidx;
          (idx_na, idx_nb) = ordered_ends cpos idx cur_constraint_idx;
          rn = minImage a (vsub (vec3_of (md_pos a ! idx_na)) (vec3_of (md_pos a ! idx_nb)))
      in if idx < nptl_local a
         then (if cpos = 0 then vadd f (vscale (- 2 * (d_lagrange ! n)) rn)
               else vadd f (vscale (2 * (d_lagrange ! n)) rn))
         else f)"

text \<open>\<^verbatim>\<open>gpu_fill_constraint_forces_kernel\<close>, one thread.\<close>

definition gpu_fill_constraint_forces_kernel ::
  "constraint_args \<Rightarrow> real list \<Rightarrow> nat \<Rightarrow> scalar4 list \<Rightarrow> scalar4 list" where
  "gpu_fill_constraint_forces_kernel a d_lagrange idx d_force =
     (if idx \<ge> nptl_local a then d_force
      else
        let n_constraint_ptl = d_gpu_n_constraints a ! idx;
            f = fold (force_step a d_lagrange idx) [0..<n_constraint_ptl] (Vec3 0 0 0)
        in d_force[idx := make_scalar4 (v3_x f) (v3_y f) (v3_z f) 0])"

text \<open>\<^verbatim>\<open>gpu_compute_constraint_forces\<close>.\<close>

definition gpu_compute_constraint_forces ::
  "nat \<Rightarrow> constraint_args \<Rightarrow> scalar4 list \<Rightarrow> nat \<Rightarrow> real list \<Rightarrow> scalar4 list" where
  "gpu_compute_constraint_forces max_block_size a d_force block_size d_lagrange =
     (let run_block_size = min block_size max_block_size;
          n_blocks = nptl_local a div run_block_size + 1
      in launch n_blocks run_block_size (gpu_fill_constraint_forces_kernel a d_lagrange) d_force)"

subsection \<open>The quantities of the specification\<close>

text \<open>The minimum-image separation \<open>pos(a) - pos(b)\<close> of two particles.\<close>

definition separation :: "constraint_args \<Rightarrow> nat \<Rightarrow> nat \<Rightarrow> vec3" where
  "separation a ia ib = minImage a (vsub (vec3_of (md_pos a ! ia)) (vec3_of (md_pos a ! ib)))"

text \<open>The force term of the specification for entry \<open>cidx\<close> of the table row of particle
  \<open>i\<close>: \<open>- 2 \<lambda>\<^sub>n r\<^sub>n\<close> when \<open>i\<close> is the first member of the constraint (position 0),
  \<open>+ 2 \<lambda>\<^sub>n r\<^sub>n\<close> when it is the second, \<open>r\<^sub>n\<close> being the separation of the first member
  from the second.\<close>

definition writeback_term :: "constraint_args \<Rightarrow> real list \<Rightarrow> nat \<Rightarrow> nat \<Rightarrow> vec3" where
  "writeback_term a d_lagrange i cidx =
     (let e = d_gpu_clist a ! gpu_clist_indexer a i cidx;
          lam = d_lagrange ! idx1 e
      in if d_gpu_cpos a ! gpu_clist_indexer a i cidx = 0
         then vscale (- (2 * lam)) (separation a i (idx0 e))
         else vscale (2 * lam) (separation a (idx0 e) i))"

text \<open>The right-hand side of the specification for constraint \<open>n\<close> with members
  \<open>ia\<close>, \<open>ib\<close>: \<open>(|q\<^sub>n|\<^sup>2 - d\<^sub>n\<^sup>2) / \<Delta>t\<^sup>2 + 2 q\<^sub>n \<cdot> (F\<^sub>a / m\<^sub>a - F\<^sub>b / m\<^sub>b)\<close> with the
  predicted separation \<open>q\<^sub>n = r\<^sub>n + \<Delta>t (v\<^sub>a - v\<^sub>b)\<close>.\<close>

definition rhs_spec :: "constraint_args \<Rightarrow> nat \<Rightarrow> nat \<Rightarrow> nat \<Rightarrow> real" where
  "rhs_spec a n ia ib =
     (let ma = s4_w (md_vel a ! ia);
          mb = s4_w (md_vel a ! ib);
          rndot = vsub (vec3_of (md_vel a ! ia)) (vec3_of (md_vel a ! ib));
          qn = vadd (separation a ia ib) (vscale (deltaT a) rndot);
          d = d_group_typeval a ! n
      in (dot qn qn - d\<^sup>2) / (deltaT a)\<^sup>2
         + 2 * dot qn (vsub (vdiv (vec3_of (d_netforce a ! ia)) ma)
                            (vdiv (vec3_of (d_netforce a ! ib)) mb)))"

text \<open>The slots \<open>(idx, cidx)\<close> of the table rows of the local particles, in the order in
  which the threads and their loops visit them, the table entry and the position stored at
  a slot, and the slots that name constraint \<open>n\<close>.\<close>

definition table_slots :: "constraint_args \<Rightarrow> (nat \<times> nat) list" where
  "table_slots a =
     concat (map (\<lambda>idx. map (Pair idx) [0..<d_gpu_n_constraints a ! idx]) [0..<nptl_local a])"

definition slot_entry :: "constraint_args \<Rightarrow> nat \<times> nat \<Rightarrow> group_storage" where
  "slot_entry a s = d_gpu_clist a ! gpu_clist_indexer a (fst s) (snd s)"

definition slot_cpos :: "constraint_args \<Rightarrow> nat \<times> nat \<Rightarrow> nat" where
  "slot_cpos a s = d_gpu_cpos a ! gpu_clist_indexer a (fst s) (snd s)"

definition slots_of :: "constraint_args \<Rightarrow> nat \<Rightarrow> (nat \<times> nat) list" where
  "slots_of a n = filter (\<lambda>s. idx1 (slot_entry a s) = n) (table_slots a)"

text \<open>The guard of line 181 at a slot.\<close>

definition vec_guard :: "constraint_args \<Rightarrow> nat \<times> nat \<Rightarrow> bool" where
  "vec_guard a s \<longleftrightarrow>
     (let ends = ordered_ends (slot_cpos a s) (fst s) (idx0 (slot_entry a s))
      in slot_cpos a s = 0 \<or> fst ends \<ge> nptl_local a \<or> snd ends \<ge> nptl_local a)"

text \<open>The table is in step with constraint \<open>n\<close> of members \<open>ia\<close>, \<open>ib\<close>: every slot of a
  local particle that names \<open>n\<close> is either a slot of \<open>ia\<close> with position 0 and partner
  \<open>ib\<close>, or a slot of \<open>ib\<close> with a nonzero position and partner \<open>ia\<close>; a local \<open>ia\<close>
  has exactly one such slot, and so has a local \<open>ib\<close>.\<close>

definition constraint_in_table :: "constraint_args \<Rightarrow> nat \<Rightarrow> nat \<Rightarrow> nat \<Rightarrow> bool" where
  "constraint_in_table a n ia ib \<longleftrightarrow>
     (\<forall>s\<in>set (slots_of a n).
         (slot_cpos a s = 0 \<and> fst s = ia \<and> idx0 (slot_entry a s) = ib)
       \<or> (slot_cpos a s \<noteq> 0 \<and> fst s = ib \<and> idx0 (slot_entry a s) = ia))
     \<and> length (filter (\<lambda>s. slot_cpos a s = 0) (slots_of a n)) = (if ia < nptl_local a then 1 else 0)
     \<and> length (filter (\<lambda>s. slot_cpos a s \<noteq> 0) (slots_of a n)) = (if ib < nptl_local a then 1 else 0)"

text \<open>The predicted separation \<open>q\<^sub>n = r\<^sub>n + \<Delta>t (v\<^sub>a - v\<^sub>b)\<close> of the members \<open>ia\<close>, \<open>ib\<close> of a
  constraint.\<close>

definition predicted_separation :: "constraint_args \<Rightarrow> nat \<Rightarrow> nat \<Rightarrow> vec3" where
  "predicted_separation a ia ib =
     vadd (separation a ia ib)
          (vscale (deltaT a) (vsub (vec3_of (md_vel a ! ia)) (vec3_of (md_vel a ! ib))))"

text \<open>The matrix element of the specification for a constraint \<open>n\<close> with members \<open>na\<close>,
  \<open>nb\<close> and a constraint \<open>m\<close> with members \<open>ma\<close>, \<open>mb\<close>: the sum of the terms
  \<open>\<plusminus> 4 (q\<^sub>n \<cdot> r\<^sub>m) / mass\<close> of the four endpoint-role cases, plus for a shared endpoint
  in the same role (\<open>a\<close> with \<open>a\<close>, \<open>b\<close> with \<open>b\<close>), minus in opposite roles, over the mass of
  that endpoint of \<open>n\<close>.\<close>

definition pair_element :: "constraint_args \<Rightarrow> nat \<Rightarrow> nat \<Rightarrow> nat \<Rightarrow> nat \<Rightarrow> real" where
  "pair_element a na nb ma mb =
     (let qr = dot (predicted_separation a na nb) (separation a ma mb);
          mass_a = s4_w (md_vel a ! na);
          mass_b = s4_w (md_vel a ! nb)
      in (if na = ma then 4 * qr / mass_a else 0)
         - (if na = mb then 4 * qr / mass_a else 0)
         - (if nb = ma then 4 * qr / mass_b else 0)
         + (if nb = mb then 4 * qr / mass_b else 0))"

text \<open>The pairs of the specification, constraint \<open>n\<close> at slot \<open>cidx_i\<close> of a local particle
  \<open>p\<close> with constraint \<open>m\<close> at slot \<open>cidx_j\<close> of the row of the neighbour, in visiting
  order; the matrix cell \<open>m * n_constraint + n\<close> a pair targets, in \<^verbatim>\<open>unsigned int\<close>
  arithmetic; and the matrix element of the pair.\<close>

definition constraint_pairs :: "constraint_args \<Rightarrow> (nat \<times> nat \<times> nat) list" where
  "constraint_pairs a =
     concat (map (\<lambda>s. map (\<lambda>cidx_j. (fst s, snd s, cidx_j))
                          [0..<d_gpu_n_constraints a ! idx0 (slot_entry a s)])
                 (table_slots a))"

definition pair_cell :: "constraint_args \<Rightarrow> nat \<times> nat \<times> nat \<Rightarrow> nat" where
  "pair_cell a t =
     (case t of (p, cidx_i, cidx_j) \<Rightarrow>
        let q = idx0 (slot_entry a (p, cidx_i));
            n = idx1 (slot_entry a (p, cidx_i));
            m = idx1 (slot_entry a (q, cidx_j))
        in (m * n_constraint a + n) mod 2 ^ 32)"

definition pair_value :: "constraint_args \<Rightarrow> nat \<times> nat \<times> nat \<Rightarrow> real" where
  "pair_value a t =
     (case t of (p, cidx_i, cidx_j) \<Rightarrow>
        let q = idx0 (slot_entry a (p, cidx_i));
            ends_n = ordered_ends (slot_cpos a (p, cidx_i)) p q;
            ends_m = ordered_ends (slot_cpos a (q, cidx_j)) q (idx0 (slot_entry a (q, cidx_j)))
        in pair_element a (fst ends_n) (snd ends_n) (fst ends_m) (snd ends_m))"

section \<open>Sparse solve pipeline (ForceDistanceConstraintGPU.cc)\<close>

text \<open>The library calls of \<^verbatim>\<open>computeConstraintForces\<close> (cuSPARSE, cuSOLVER) and the
  force kernel launch, in the order of the source. The libraries are external: a call is
  recorded by its name, and the two library results that the control flow reads, the
  nonzero count of \<^verbatim>\<open>cusparseDnnz\<close> and the position reported by
  \<^verbatim>\<open>cusolverSpDcsrluZeroPivotHost\<close>, are arguments.\<close>

datatype solver_call =
    cusparseDnnz | cusparseDdense2csr
  | cusolverSpCreate | cusolverSpXcsrsymrcmHost | cusolverSpXcsrperm_bufferSizeHost
  | cusolverSpXcsrpermHost | cusolverSpCreateCsrluInfoHost | cusolverSpXcsrluAnalysisHost
  | cusolverSpDcsrluBufferInfoHost | cusolverSpDcsrluFactorHost | cusolverSpDcsrluZeroPivotHost
  | cusolverSpXcsrluNnzHost | cusolverSpDcsrluExtractHost | cusolverSpDestroyCsrluInfoHost
  | cusolverSpDestroy
  | cusolverRfCreate | cusolverRfSetNumericProperties | cusolverRfSetAlgs
  | cusolverRfSetMatrixFormat | cusolverRfSetupHost | cusolverRfAnalyze
  | cusolverRfResetValues | cusolverRfRefactor | cusolverRfSolve
  | gpu_compute_constraint_forces_call

text \<open>The members of \<^verbatim>\<open>ForceDistanceConstraintGPU\<close> that the control flow reads or
  writes.\<close>

record solver_state =
  m_nnz_tot :: int
  m_constraints_dirty :: bool
  m_cusolver_rf_initialized :: bool

text \<open>What a call of \<^verbatim>\<open>computeConstraintForces\<close> leaves behind: the members, the calls
  made, the lines written to the error stream \<^verbatim>\<open>m_exec_conf->msg->error()\<close>, and the
  message of the \<^verbatim>\<open>std::runtime_error\<close> thrown, if any.\<close>

record solve_outcome =
  members :: solver_state
  calls :: "solver_call list"
  error_stream :: "string list"
  thrown :: "string option"

text \<open>\<^verbatim>\<open>gpu_dense2sparse\<close> (ForceDistanceConstraintGPU.cu, lines 315-343): the flag
  \<^verbatim>\<open>sparsity_pattern_changed = (nnz != new_nnz)\<close> and the stored count.\<close>

definition gpu_dense2sparse :: "int \<Rightarrow> int \<Rightarrow> solver_call list \<times> bool \<times> int" where
  "gpu_dense2sparse nnz new_nnz =
     ([cusparseDnnz, cusparseDdense2csr], nnz \<noteq> new_nnz, new_nnz)"

text \<open>The calls of the branch \<^verbatim>\<open>if (sparsity_pattern_changed)\<close> up to the zero-pivot
  check (lines 246-324).\<close>

definition factorization_calls :: "solver_call list" where
  "factorization_calls =
     [cusolverSpCreate, cusolverSpXcsrsymrcmHost, cusolverSpXcsrperm_bufferSizeHost,
      cusolverSpXcsrpermHost, cusolverSpCreateCsrluInfoHost, cusolverSpXcsrluAnalysisHost,
      cusolverSpDcsrluBufferInfoHost, cusolverSpDcsrluFactorHost, cusolverSpDcsrluZeroPivotHost]"

text \<open>The calls after a passed zero-pivot check (lines 336-433): extraction of the
  factors, creation of the refactorization handle on first use, set-up and analysis.\<close>

definition extraction_calls :: "bool \<Rightarrow> solver_call list" where
  "extraction_calls rf_initialized =
     [cusolverSpXcsrluNnzHost, cusolverSpDcsrluExtractHost, cusolverSpDestroyCsrluInfoHost,
      cusolverSpDestroy]
     @ (if \<not> rf_initialized
        then [cusolverRfCreate, cusolverRfSetNumericProperties, cusolverRfSetAlgs,
              cusolverRfSetMatrixFormat]
        else [])
     @ [cusolverRfSetupHost, cusolverRfAnalyze]"

text \<open>The calls made on every completed step (lines 450-502).\<close>

definition refactor_solve_calls :: "solver_call list" where
  "refactor_solve_calls =
     [cusolverRfResetValues, cusolverRfRefactor, cusolverRfSolve,
      gpu_compute_constraint_forces_call]"

text \<open>\<^verbatim>\<open>ForceDistanceConstraintGPU::computeConstraintForces\<close>.\<close>

definition computeConstraintForces :: "solver_state \<Rightarrow> int \<Rightarrow> int \<Rightarrow> solve_outcome" where
  "computeConstraintForces st new_nnz singularity =
     (let (calls0, changed, nnz') = gpu_dense2sparse (m_nnz_tot st) new_nnz;
          st1 = st\<lparr>m_nnz_tot := nnz'\<rparr>;
          sparsity_pattern_changed = (changed \<or> m_constraints_dirty st1);
          st2 = st1\<lparr>m_constraints_dirty := False\<rparr>
      in if sparsity_pattern_changed
         then
           (if 0 \<le> singularity
            then \<lparr>members = st2, calls = calls0 @ factorization_calls,
                  error_stream = [''Singular constraint matrix.''],
                  thrown = Some (''Error computing constraint forces'' @ [CHR 0x0A])\<rparr>
            else \<lparr>members = st2\<lparr>m_cusolver_rf_initialized := True\<rparr>,
                  calls = calls0 @ factorization_calls
                          @ extraction_calls (m_cusolver_rf_initialized st2)
                          @ refactor_solve_calls,
                  error_stream = [], thrown = None\<rparr>)
         else \<lparr>members = st2, calls = calls0 @ refactor_solve_calls,
               error_stream = [], thrown = None\<rparr>)"

subsection \<open>Example systems\<close>

text \<open>Two local particles of mass 1 at distance 1 along \<open>x\<close>, at rest and force-free,
  joined by constraint 0 of length 1 with particle 0 as its first member; time step 1, a
  box large enough for the minimum image to change nothing, table rows of pitch 2.\<close>

definition two_particles :: constraint_args where
  "two_particles =
     \<lparr>n_constraint = 1, nptl_local = 2,
      md_pos = [make_scalar4 1 0 0 0, make_scalar4 0 0 0 0],
      md_vel = [make_scalar4 0 0 0 1, make_scalar4 0 0 0 1],
      d_netforce = [make_scalar4 0 0 0 0, make_scalar4 0 0 0 0],
      d_gpu_clist = [Group2 1 0, Group2 0 0],
      gpu_clist_indexer = (\<lambda>i j. j * 2 + i),
      d_gpu_n_constraints = [1, 1],
      d_gpu_cpos = [0, 1],
      d_group_typeval = [1],
      deltaT = 1,
      minImage = (\<lambda>v. v)\<rparr>"

text \<open>The same system when the constraint list holds a second constraint, number 1, none
  of whose members is a local particle.\<close>

definition ghost_constraint :: constraint_args where
  "ghost_constraint = two_particles\<lparr>n_constraint := 2, d_group_typeval := [1, 1]\<rparr>"

text \<open>A constraint across the domain boundary: particle 0 is local and the second member,
  particle 1 of mass 2 is not local and the first member; it moves with velocity 1 along
  \<open>x\<close> under the net force 2.\<close>

definition boundary_pair :: constraint_args where
  "boundary_pair =
     \<lparr>n_constraint = 1, nptl_local = 1,
      md_pos = [make_scalar4 0 0 0 0, make_scalar4 1 0 0 0],
      md_vel = [make_scalar4 0 0 0 1, make_scalar4 1 0 0 2],
      d_netforce = [make_scalar4 0 0 0 0, make_scalar4 2 0 0 0],
      d_gpu_clist = [Group2 1 0, Group2 0 0],
      gpu_clist_indexer = (\<lambda>i j. j * 2 + i),
      d_gpu_n_constraints = [1, 1],
      d_gpu_cpos = [1, 0],
      d_group_typeval = [1],
      deltaT = 1,
      minImage = (\<lambda>v. v)\<rparr>"

section \<open>Launches and scatters\<close>

lemma launch_guard:
  assumes "\<And>idx st. N \<le> idx \<Longrightarrow> body idx st = st" and "N \<le> n_blocks * block_size"
  shows "launch n_blocks block_size body st = fold body [0..<N] st"
proof -
  have noop: "fold body js s = s" if "\<forall>j\<in>set js. N \<le> j" for js s
    using that assms(1) by (induction js arbitrary: s) simp_all
  have "[0..<n_blocks * block_size] = [0..<N] @ [N..<n_blocks * block_size]"
    using assms(2) by (metis le_add_diff_inverse upt_add_eq_append zero_le)
  then show ?thesis
    by (simp add: launch_def noop)
qed

lemma grid_covers: "0 < bs \<Longrightarrow> N \<le> (N div bs + 1) * (bs::nat)"
  by (metis Suc_eq_plus1 dividend_less_div_times less_or_eq_imp_le mult.commute add.commute mult_Suc)

lemma cscatter_length:
  "length (fold (\<lambda>i xs. if c i then xs[f i := g i] else xs) js xs) = length xs"
  by (induction js arbitrary: xs) simp_all

lemma cscatter_frame:
  "\<forall>i\<in>set js. c i \<longrightarrow> f i \<noteq> j \<Longrightarrow>
   fold (\<lambda>i xs. if c i then xs[f i := g i] else xs) js xs ! j = xs ! j"
  by (induction js arbitrary: xs) simp_all

lemma cscatter_stays:
  "\<forall>i\<in>set js. c i \<and> f i = j \<longrightarrow> g i = v \<Longrightarrow> j < length xs \<Longrightarrow> xs ! j = v \<Longrightarrow>
   fold (\<lambda>i xs. if c i then xs[f i := g i] else xs) js xs ! j = v"
proof (induction js arbitrary: xs)
  case Nil
  then show ?case by simp
next
  case (Cons a js)
  let ?ys = "if c a then xs[f a := g a] else xs"
  have "?ys ! j = v"
  proof (cases "c a \<and> f a = j")
    case True
    then show ?thesis using Cons.prems by simp
  next
    case False
    then show ?thesis using Cons.prems by (cases "c a") simp_all
  qed
  moreover have "j < length ?ys" using Cons.prems by simp
  ultimately show ?case using Cons.IH [of ?ys] Cons.prems(1) by simp
qed

lemma cscatter_hit:
  "\<forall>i\<in>set js. c i \<and> f i = j \<longrightarrow> g i = v \<Longrightarrow> \<exists>i\<in>set js. c i \<and> f i = j \<Longrightarrow> j < length xs \<Longrightarrow>
   fold (\<lambda>i xs. if c i then xs[f i := g i] else xs) js xs ! j = v"
proof (induction js arbitrary: xs)
  case Nil
  then show ?case by simp
next
  case (Cons a js)
  let ?ys = "if c a then xs[f a := g a] else xs"
  have len: "j < length ?ys" using Cons.prems by simp
  have agree: "\<forall>i\<in>set js. c i \<and> f i = j \<longrightarrow> g i = v" using Cons.prems(1) by simp
  show ?case
  proof (cases "c a \<and> f a = j")
    case True
    then have "?ys ! j = v" using Cons.prems by simp
    then have "fold (\<lambda>i xs. if c i then xs[f i := g i] else xs) js ?ys ! j = v"
      using cscatter_stays [OF agree len] by simp
    then show ?thesis by simp
  next
    case False
    then have "\<exists>i\<in>set js. c i \<and> f i = j" using Cons.prems(2) by auto
    then show ?thesis using Cons.IH [OF agree _ len] by simp
  qed
qed

section \<open>The partitioner is a stable partition\<close>

lemma exclusive_scan_length: "length (exclusive_scan acc vs) = length vs"
  by (induction vs arbitrary: acc) simp_all

lemma exclusive_scan_nth:
  "i < length vs \<Longrightarrow> exclusive_scan acc vs ! i = acc + sum_list (take i vs)"
proof (induction vs arbitrary: acc i)
  case Nil
  then show ?case by simp
next
  case (Cons v vs)
  then show ?case by (cases i) simp_all
qed

lemma sum_indicator_filter:
  "sum_list (map (\<lambda>f. if Q f then 1 else 0) fs) = length (filter Q fs)"
  by (induction fs) simp_all

lemma filter_take_index:
  "i \<le> length fs \<Longrightarrow> length (filter Q (take i fs)) = length (filter (\<lambda>k. Q (fs ! k)) [0..<i])"
proof (induction i)
  case 0
  then show ?case by simp
next
  case (Suc i)
  then have "take (Suc i) fs = take i fs @ [fs ! i]"
    by (simp add: take_Suc_conv_app_nth)
  with Suc show ?case by simp
qed

lemma filter_upt_nth_rank:
  assumes "i < N" and "P i"
  shows "filter P [0..<N] ! length (filter P [0..<i]) = i"
proof -
  have "[0..<N] = [0..<i] @ i # [Suc i..<N]"
    using assms(1) by (metis le_add_diff_inverse less_imp_le_nat upt_add_eq_append upt_conv_Cons zero_le)
  then have "filter P [0..<N] = filter P [0..<i] @ i # filter P [Suc i..<N]"
    using assms(2) by simp
  then show ?thesis by (simp add: nth_append)
qed

lemma filter_upt_rank_less:
  assumes "i < N" and "P i"
  shows "length (filter P [0..<i]) < length (filter P [0..<N])"
proof -
  have "[0..<N] = [0..<i] @ i # [Suc i..<N]"
    using assms(1) by (metis le_add_diff_inverse less_imp_le_nat upt_add_eq_append upt_conv_Cons zero_le)
  then have "filter P [0..<N] = filter P [0..<i] @ i # filter P [Suc i..<N]"
    using assms(2) by simp
  then show ?thesis by simp
qed

lemma filter_split_length:
  "length (filter P [0..<N]) + length (filter (\<lambda>i. \<not> P i) [0..<N]) = N"
  using sum_length_filter_compl [of P "[0..<N]"] by simp

lemmas scatter_length = cscatter_length [where c = "\<lambda>_. True", simplified]
lemmas scatter_hit = cscatter_hit [where c = "\<lambda>_. True", simplified]

text \<open>A scatter along a bijection of the index range.\<close>

lemma scatter_permutation:
  assumes len: "length buf = N" "length sp = N"
    and slot: "\<And>i. i < N \<Longrightarrow> slot i < N \<and> sp ! slot i = i"
  shows "fold (\<lambda>i out. out[slot i := g i]) [0..<N] buf = map g sp"
proof (rule nth_equalityI)
  show "length (fold (\<lambda>i out. out[slot i := g i]) [0..<N] buf) = length (map g sp)"
    using len by (simp add: scatter_length)
next
  fix j
  assume "j < length (fold (\<lambda>i out. out[slot i := g i]) [0..<N] buf)"
  then have j: "j < N" using len by (simp add: scatter_length)
  have inj: "inj_on slot {..<N}"
    by (rule inj_onI) (metis lessThan_iff slot)
  have "slot ` {..<N} \<subseteq> {..<N}" using slot by auto
  then have "slot ` {..<N} = {..<N}"
    using inj by (simp add: endo_inj_surj)
  then obtain i where i: "i < N" "slot i = j" using j by (metis imageE lessThan_iff)
  have agree: "\<forall>k\<in>set [0..<N]. slot k = j \<longrightarrow> g k = g i"
    using i slot by (metis atLeastLessThan_iff set_upt)
  have "fold (\<lambda>i out. out[slot i := g i]) [0..<N] buf ! j = g i"
    by (rule scatter_hit [OF agree]) (use i j len in auto)
  moreover have "sp ! j = i" using slot [OF i(1)] i(2) by simp
  ultimately show "fold (\<lambda>i out. out[slot i := g i]) [0..<N] buf ! j = map g sp ! j"
    using j len by simp
qed

lemma stable_partition_length: "length (stable_partition d_flags N) = N"
  unfolding stable_partition_def
  using filter_split_length [of "\<lambda>i. d_flags ! i \<noteq> 0" N] by simp

lemma Flagged_stable:
  assumes "length d_flags = N" and "length d_out_buf = N"
  shows "Flagged d_in d_flags d_out_buf N =
         (map (\<lambda>i. d_in ! i) (stable_partition d_flags N), length (filter (\<lambda>f. f \<noteq> 0) d_flags))"
proof -
  let ?P = "\<lambda>i. d_flags ! i \<noteq> 0"
  let ?keep = "map (\<lambda>f. if f \<noteq> 0 then 1 else 0 :: nat) (take N d_flags)"
  let ?drop = "map (\<lambda>f. if f \<noteq> 0 then 0 else 1 :: nat) (take N d_flags)"
  let ?K = "sum_list ?keep"
  let ?slot = "\<lambda>i. if d_flags ! i \<noteq> 0 then exclusive_scan 0 ?keep ! i
                    else ?K + exclusive_scan 0 ?drop ! i"
  let ?sp = "stable_partition d_flags N"
  have K: "?K = length (filter ?P [0..<N])"
    using assms(1) filter_take_index [of N d_flags "\<lambda>f. f \<noteq> 0"]
    by (simp add: sum_indicator_filter)
  have K': "?K = length (filter (\<lambda>f. f \<noteq> 0) d_flags)"
    using assms(1) by (simp add: sum_indicator_filter)
  have sk: "exclusive_scan 0 ?keep ! i = length (filter ?P [0..<i])" if "i < N" for i
  proof -
    have "exclusive_scan 0 ?keep ! i = sum_list (take i ?keep)"
      using that assms(1) by (simp add: exclusive_scan_nth)
    also have "take i ?keep = map (\<lambda>f. if f \<noteq> 0 then 1 else 0) (take i d_flags)"
      using that by (simp add: take_map min_def)
    also have "sum_list \<dots> = length (filter (\<lambda>f. f \<noteq> 0) (take i d_flags))"
      by (rule sum_indicator_filter)
    also have "\<dots> = length (filter ?P [0..<i])"
      using that assms(1) by (simp add: filter_take_index)
    finally show ?thesis .
  qed
  have sd: "exclusive_scan 0 ?drop ! i = length (filter (\<lambda>k. \<not> ?P k) [0..<i])" if "i < N" for i
  proof -
    have eq: "(\<lambda>f::u8. if f \<noteq> 0 then 0 else 1::nat) = (\<lambda>f. if \<not> f \<noteq> 0 then 1 else 0)"
      by auto
    have "exclusive_scan 0 ?drop ! i = sum_list (take i ?drop)"
      using that assms(1) by (simp add: exclusive_scan_nth)
    also have "take i ?drop = map (\<lambda>f. if \<not> f \<noteq> 0 then 1 else 0) (take i d_flags)"
      using that by (simp add: take_map min_def)
    also have "sum_list \<dots> = length (filter (\<lambda>f. \<not> f \<noteq> 0) (take i d_flags))"
      by (rule sum_indicator_filter)
    also have "\<dots> = length (filter (\<lambda>k. \<not> ?P k) [0..<i])"
      using that assms(1) filter_take_index [of i d_flags "\<lambda>f. \<not> f \<noteq> 0"] by simp
    finally show ?thesis .
  qed
  have slot: "?slot i < N \<and> ?sp ! ?slot i = i" if "i < N" for i
  proof (cases "?P i")
    case True
    have "length (filter ?P [0..<i]) < length (filter ?P [0..<N])"
      using that True by (rule filter_upt_rank_less)
    moreover have "filter ?P [0..<N] ! length (filter ?P [0..<i]) = i"
      using that True by (rule filter_upt_nth_rank)
    moreover have "length (filter ?P [0..<N]) \<le> N"
      using filter_split_length [of ?P N] by simp
    ultimately show ?thesis
      using True sk [OF that] by (simp add: stable_partition_def nth_append)
  next
    case False
    let ?Q = "\<lambda>k. \<not> ?P k"
    have "length (filter ?Q [0..<i]) < length (filter ?Q [0..<N])"
      using that False by (intro filter_upt_rank_less) simp_all
    moreover have "filter ?Q [0..<N] ! length (filter ?Q [0..<i]) = i"
      using that False by (intro filter_upt_nth_rank) simp_all
    moreover note filter_split_length [of ?P N]
    ultimately show ?thesis
      using False sd [OF that] K by (simp add: stable_partition_def nth_append)
  qed
  have "fold (\<lambda>i out. out[?slot i := d_in ! i]) [0..<N] d_out_buf = map (\<lambda>i. d_in ! i) ?sp"
    using assms(2) stable_partition_length slot by (rule scatter_permutation)
  then show ?thesis
    unfolding Flagged_def Let_def using K' by simp
qed



section \<open>Removing and appending particles\<close>

lemma add_fold_pos:
  "d_pos (fold (add_particles_kernel K M d_in bm) js st) =
   fold (\<lambda>i xs. if i < M then xs[(K + i) mod 2 ^ 32 := pos (d_in ! i)] else xs) js (d_pos st)"
  by (induction js arbitrary: st) (simp_all add: add_particles_kernel_def Let_def)

lemma add_fold_vel:
  "d_vel (fold (add_particles_kernel K M d_in bm) js st) =
   fold (\<lambda>i xs. if i < M then xs[(K + i) mod 2 ^ 32 := vel (d_in ! i)] else xs) js (d_vel st)"
  by (induction js arbitrary: st) (simp_all add: add_particles_kernel_def Let_def)

lemma add_fold_tag:
  "d_tag (fold (add_particles_kernel K M d_in bm) js st) =
   fold (\<lambda>i xs. if i < M then xs[(K + i) mod 2 ^ 32 := tag (d_in ! i)] else xs) js (d_tag st)"
  by (induction js arbitrary: st) (simp_all add: add_particles_kernel_def Let_def)

lemma add_fold_comm_flags:
  "d_comm_flags (fold (add_particles_kernel K M d_in bm) js st) =
   fold (\<lambda>i xs. if i < M then xs[(K + i) mod 2 ^ 32 := comm_flag (d_in ! i) AND NOT bm] else xs)
     js (d_comm_flags st)"
  by (induction js arbitrary: st) (simp_all add: add_particles_kernel_def Let_def)

lemma remove_fold_out:
  "d_out (fold (remove_particles_kernel n_keep src d_scan N) js st) =
   fold (\<lambda>i xs. if i < N \<and> n_keep \<le> i
                 then xs[i - n_keep := \<lparr>pos = d_pos src ! (d_scan ! i), vel = d_vel src ! (d_scan ! i),
                                        tag = d_tag src ! (d_scan ! i),
                                        comm_flag = d_comm_flags src ! (d_scan ! i)\<rparr>]
                 else xs) js (d_out st)"
  by (induction js arbitrary: st) (simp_all add: remove_particles_kernel_def Let_def)

lemma thread_in_grid: "idx < N \<Longrightarrow> idx \<in> set [0..<(N div 512 + 1) * 512]"
  using grid_covers [of 512 N] by simp

lemma remove_particles_packs:
  assumes "n_keep \<le> idx" and "idx < N" and "idx - n_keep < length (d_out st)"
  shows "d_out (remove_particles st n_keep src d_scan N) ! (idx - n_keep) =
         \<lparr>pos = d_pos src ! (d_scan ! idx), vel = d_vel src ! (d_scan ! idx),
          tag = d_tag src ! (d_scan ! idx), comm_flag = d_comm_flags src ! (d_scan ! idx)\<rparr>"
  unfolding remove_particles_def Let_def launch_def remove_fold_out
proof (rule cscatter_hit)
  show "\<exists>i\<in>set [0..<(N div 512 + 1) * 512]. (i < N \<and> n_keep \<le> i) \<and> i - n_keep = idx - n_keep"
    using assms thread_in_grid [of idx N] by blast
  show "idx - n_keep < length (d_out st)" by (rule assms(3))
  show "\<forall>i\<in>set [0..<(N div 512 + 1) * 512]. (i < N \<and> n_keep \<le> i) \<and> i - n_keep = idx - n_keep \<longrightarrow>
     \<lparr>pos = d_pos src ! (d_scan ! i), vel = d_vel src ! (d_scan ! i),
          tag = d_tag src ! (d_scan ! i), comm_flag = d_comm_flags src ! (d_scan ! i)\<rparr> = 
     \<lparr>pos = d_pos src ! (d_scan ! idx), vel = d_vel src ! (d_scan ! idx),
          tag = d_tag src ! (d_scan ! idx), comm_flag = d_comm_flags src ! (d_scan ! idx)\<rparr>"
  proof (intro ballI impI)
    fix i assume "(i < N \<and> n_keep \<le> i) \<and> i - n_keep = idx - n_keep"
    then have "i = idx" using assms(1) by linarith
    then show "\<lparr>pos = d_pos src ! (d_scan ! i), vel = d_vel src ! (d_scan ! i),
          tag = d_tag src ! (d_scan ! i), comm_flag = d_comm_flags src ! (d_scan ! i)\<rparr> = 
     \<lparr>pos = d_pos src ! (d_scan ! idx), vel = d_vel src ! (d_scan ! idx),
          tag = d_tag src ! (d_scan ! idx), comm_flag = d_comm_flags src ! (d_scan ! idx)\<rparr>" by simp
  qed
qed

text \<open>Every store of the append kernel goes to \<open>K + k\<close> for its own \<open>k\<close>, when the new
  count does not wrap.\<close>

lemma add_slot_unique:
  assumes "K + M \<le> 2 ^ 32" and "i < M" and "k < M"  and "(K + i) mod 2 ^ 32 = K + k"
  shows "i = (k::nat)"
proof -
  have "K + i < 2 ^ 32" using assms(1,2) by linarith
  then show ?thesis using assms(4) by simp
qed

lemma add_particles_writes:
  assumes nowrap: "K + M \<le> 2 ^ 32" and k: "k < M"
  shows "K + k < length (d_pos st) \<Longrightarrow> d_pos (add_particles K M st d_in bm) ! (K + k) = pos (d_in ! k)"
    and "K + k < length (d_vel st) \<Longrightarrow> d_vel (add_particles K M st d_in bm) ! (K + k) = vel (d_in ! k)"
    and "K + k < length (d_tag st) \<Longrightarrow> d_tag (add_particles K M st d_in bm) ! (K + k) = tag (d_in ! k)"
    and "K + k < length (d_comm_flags st) \<Longrightarrow>
         d_comm_flags (add_particles K M st d_in bm) ! (K + k) = comm_flag (d_in ! k) AND NOT bm"
proof -
  have ex: "\<exists>i\<in>set [0..<(M div 512 + 1) * 512]. i < M \<and> (K + i) mod 2 ^ 32 = K + k"
  proof
    show "k \<in> set [0..<(M div 512 + 1) * 512]" using k by (rule thread_in_grid)
    have "K + k < 2 ^ 32" using nowrap k by linarith
    then show "k < M \<and> (K + k) mod 2 ^ 32 = K + k" using k by simp
  qed
  have uniq: "\<forall>i\<in>set [0..<(M div 512 + 1) * 512]. i < M \<and> (K + i) mod 2 ^ 32 = K + k \<longrightarrow> g i = g k"
    for g :: "nat \<Rightarrow> 'b"
    using add_slot_unique [OF nowrap _ k] by blast
  show "K + k < length (d_pos st) \<Longrightarrow> d_pos (add_particles K M st d_in bm) ! (K + k) = pos (d_in ! k)"
    unfolding add_particles_def Let_def launch_def add_fold_pos
    by (rule cscatter_hit [OF uniq ex])
  show "K + k < length (d_vel st) \<Longrightarrow> d_vel (add_particles K M st d_in bm) ! (K + k) = vel (d_in ! k)"
    unfolding add_particles_def Let_def launch_def add_fold_vel
    by (rule cscatter_hit [OF uniq ex])
  show "K + k < length (d_tag st) \<Longrightarrow> d_tag (add_particles K M st d_in bm) ! (K + k) = tag (d_in ! k)"
    unfolding add_particles_def Let_def launch_def add_fold_tag
    by (rule cscatter_hit [OF uniq ex])
  show "K + k < length (d_comm_flags st) \<Longrightarrow>
         d_comm_flags (add_particles K M st d_in bm) ! (K + k) = comm_flag (d_in ! k) AND NOT bm"
    unfolding add_particles_def Let_def launch_def add_fold_comm_flags
    by (rule cscatter_hit [OF uniq ex])
qed

lemma add_slot_range:
  assumes "K + M \<le> 2 ^ 32" and "i < M" and "j < K \<or> K + M \<le> j"
  shows "(K + i) mod 2 ^ 32 \<noteq> (j::nat)"
proof -
  have "K + i < 2 ^ 32" using assms(1,2) by linarith
  then have "(K + i) mod 2 ^ 32 = K + i" by simp
  then show ?thesis using assms(2,3) by linarith
qed

lemma add_particles_untouched:
  assumes nowrap: "K + M \<le> 2 ^ 32" and j: "j < K \<or> K + M \<le> j"
  shows "d_pos (add_particles K M st d_in bm) ! j = d_pos st ! j"
    and "d_vel (add_particles K M st d_in bm) ! j = d_vel st ! j"
    and "d_tag (add_particles K M st d_in bm) ! j = d_tag st ! j"
    and "d_comm_flags (add_particles K M st d_in bm) ! j = d_comm_flags st ! j"
proof -
  have miss: "\<forall>i\<in>set js. i < M \<longrightarrow> (K + i) mod 2 ^ 32 \<noteq> j" for js
    using add_slot_range [OF nowrap _ j] by blast
  show "d_pos (add_particles K M st d_in bm) ! j = d_pos st ! j"
    unfolding add_particles_def Let_def launch_def add_fold_pos
    by (rule cscatter_frame [OF miss])
  show "d_vel (add_particles K M st d_in bm) ! j = d_vel st ! j"
    unfolding add_particles_def Let_def launch_def add_fold_vel
    by (rule cscatter_frame [OF miss])
  show "d_tag (add_particles K M st d_in bm) ! j = d_tag st ! j"
    unfolding add_particles_def Let_def launch_def add_fold_tag
    by (rule cscatter_frame [OF miss])
  show "d_comm_flags (add_particles K M st d_in bm) ! j = d_comm_flags st ! j"
    unfolding add_particles_def Let_def launch_def add_fold_comm_flags
    by (rule cscatter_frame [OF miss])
qed

lemma add_particles_lengths:
  "length (d_pos (add_particles K M st d_in bm)) = length (d_pos st)"
  "length (d_vel (add_particles K M st d_in bm)) = length (d_vel st)"
  "length (d_tag (add_particles K M st d_in bm)) = length (d_tag st)"
  "length (d_comm_flags (add_particles K M st d_in bm)) = length (d_comm_flags st)"
  unfolding add_particles_def Let_def launch_def add_fold_pos add_fold_vel add_fold_tag
    add_fold_comm_flags
  by (rule cscatter_length)+

lemma mark_launch:
  "0 < min block_size max_block_size \<Longrightarrow>
   mark_removed_particles max_block_size st comm_flags bitmask N block_size =
   fold (mark_removed_particles_kernel comm_flags bitmask N) [0..<N] st"
  unfolding mark_removed_particles_def Let_def
  using grid_covers [of "min block_size max_block_size" N]
  by (intro launch_guard) (simp_all add: mark_removed_particles_kernel_def)

lemma remove_launch:
  "remove_particles st n_keep src d_scan N =
   fold (remove_particles_kernel n_keep src d_scan N) [0..<N] st"
  unfolding remove_particles_def Let_def
  by (rule launch_guard) (simp_all add: remove_particles_kernel_def grid_covers)

lemma upt_0_5: "[0..<5] = [0, 1, 2, 3, 4]"
  by code_simp

lemma upt_0_4: "[0..<4] = [0, 1, 2, 3]"
  by code_simp

text \<open>Claim C3. Five particles with status flags \<open>[0,1,1,0,0]\<close> and mask 1: the classifier
  writes the flags \<open>[1,0,0,1,1]\<close> (keep, remove, remove, keep, keep) and the identity
  indices; the partitioner returns the permutation \<open>[0,3,4,1,2]\<close> and the count 3; the
  remove kernel puts the records of particles 0, 3, 4 into the local slots 0, 1, 2 and
  the records of particles 1, 2 into the slots 0, 1 of the outbound buffer. The particle
  attributes and the previous contents of all written arrays are arbitrary.\<close>

theorem worked_example:
  "mark_removed_particles 1024 \<lparr>d_tmp_flag = [a0, a1, a2, a3, a4], d_tmp_id = [b0, b1, b2, b3, b4]\<rparr>
      [0, 1, 1, 0, 0] 1 5 256
    = \<lparr>d_tmp_flag = [1, 0, 0, 1, 1], d_tmp_id = [0, 1, 2, 3, 4]\<rparr>
   \<and> map (\<lambda>f. f \<noteq> 0) [1, 0, 0, 1, 1 :: u8] = [True, False, False, True, True]
   \<and> partition_particles [0, 1, 2, 3, 4] [1, 0, 0, 1, 1] [c0, c1, c2, c3, c4] 5 = ([0, 3, 4, 1, 2], 3)
   \<and> remove_particles
        \<lparr>d_out = [o0, o1], d_pos_alt = [x0, x1, x2, x3, x4], d_vel_alt = [y0, y1, y2, y3, y4],
         d_tag_alt = [z0, z1, z2, z3, z4], d_comm_flags_alt = [w0, w1, w2, w3, w4]\<rparr>
        3
        \<lparr>d_pos = [p0, p1, p2, p3, p4], d_vel = [v0, v1, v2, v3, v4], d_tag = [t0, t1, t2, t3, t4],
         d_comm_flags = [0, 1, 1, 0, 0]\<rparr>
        [0, 3, 4, 1, 2] 5
    = \<lparr>d_out = [\<lparr>pos = p1, vel = v1, tag = t1, comm_flag = 1\<rparr>,
                \<lparr>pos = p2, vel = v2, tag = t2, comm_flag = 1\<rparr>],
       d_pos_alt = [p0, p3, p4, x3, x4], d_vel_alt = [v0, v3, v4, y3, y4],
       d_tag_alt = [t0, t3, t4, z3, z4], d_comm_flags_alt = [0, 0, 0, w3, w4]\<rparr>"
proof (intro conjI)
  show "mark_removed_particles 1024 \<lparr>d_tmp_flag = [a0, a1, a2, a3, a4], d_tmp_id = [b0, b1, b2, b3, b4]\<rparr>
      [0, 1, 1, 0, 0] 1 5 256
    = \<lparr>d_tmp_flag = [1, 0, 0, 1, 1], d_tmp_id = [0, 1, 2, 3, 4]\<rparr>"
    by (simp add: mark_launch upt_0_5 mark_removed_particles_kernel_def)
  show "map (\<lambda>f. f \<noteq> 0) [1, 0, 0, 1, 1 :: u8] = [True, False, False, True, True]"
    by simp
  have "length [1, 0, 0, 1, 1 :: u8] = 5" "length [c0, c1, c2, c3, c4] = 5" by simp_all
  then have "Flagged [0, 1, 2, 3, 4] [1, 0, 0, 1, 1] [c0, c1, c2, c3, c4] 5 =
        (map (\<lambda>i. [0, 1, 2, 3, 4] ! i) (stable_partition [1, 0, 0, 1, 1] 5),
         length (filter (\<lambda>f. f \<noteq> 0) [1, 0, 0, 1, 1 :: u8]))"
    by (rule Flagged_stable)
  then show "partition_particles [0, 1, 2, 3, 4] [1, 0, 0, 1, 1] [c0, c1, c2, c3, c4] 5 = ([0, 3, 4, 1, 2], 3)"
    by (simp add: partition_particles_def stable_partition_def upt_0_5)
  show "remove_particles
        \<lparr>d_out = [o0, o1], d_pos_alt = [x0, x1, x2, x3, x4], d_vel_alt = [y0, y1, y2, y3, y4],
         d_tag_alt = [z0, z1, z2, z3, z4], d_comm_flags_alt = [w0, w1, w2, w3, w4]\<rparr>
        3
        \<lparr>d_pos = [p0, p1, p2, p3, p4], d_vel = [v0, v1, v2, v3, v4], d_tag = [t0, t1, t2, t3, t4],
         d_comm_flags = [0, 1, 1, 0, 0]\<rparr>
        [0, 3, 4, 1, 2] 5
    = \<lparr>d_out = [\<lparr>pos = p1, vel = v1, tag = t1, comm_flag = 1\<rparr>,
                \<lparr>pos = p2, vel = v2, tag = t2, comm_flag = 1\<rparr>],
       d_pos_alt = [p0, p3, p4, x3, x4], d_vel_alt = [v0, v3, v4, y3, y4],
       d_tag_alt = [t0, t3, t4, z3, z4], d_comm_flags_alt = [0, 0, 0, w3, w4]\<rparr>"
    by (simp add: remove_launch upt_0_5 remove_particles_kernel_def)
qed

text \<open>Claim C1. For every flag array of length \<open>N\<close>, the partitioner applied to the identity
  index array returns the stable two-way partition of the indices and its count: the
  count is the number of nonzero (keep) flags, the indices with a keep flag come first in
  increasing order, the indices without follow in increasing order.\<close>

theorem partition_particles_stable:
  assumes "length d_flags = N" and "length d_out_buf = N"
  shows "partition_particles [0..<N] d_flags d_out_buf N =
         (filter (\<lambda>i. d_flags ! i \<noteq> 0) [0..<N] @ filter (\<lambda>i. d_flags ! i = 0) [0..<N],
          length (filter (\<lambda>f. f \<noteq> 0) d_flags))"
proof -
  have "\<forall>i\<in>set (stable_partition d_flags N). [0..<N] ! i = i"
    by (auto simp: stable_partition_def)
  then have "map (\<lambda>i. [0..<N] ! i) (stable_partition d_flags N) = stable_partition d_flags N"
    by (simp add: map_idI)
  then show ?thesis
    using Flagged_stable [OF assms, of "[0..<N]"]
    by (simp add: partition_particles_def stable_partition_def)
qed

text \<open>The statement at the flags \<open>[0,1,1,0]\<close>.\<close>

theorem partition_particles_stable_witness:
  "length [0, 1, 1, 0 :: u8] = 4 \<and> length [7, 7, 7, 7 :: nat] = 4 \<and>
   partition_particles [0..<4] [0, 1, 1, 0] [7, 7, 7, 7] 4 = ([1, 2, 0, 3], 2)"
  using partition_particles_stable [of "[0, 1, 1, 0]" 4 "[7, 7, 7, 7]"]
  by (simp add: upt_0_4)

text \<open>Claim C4. Round trip. Let the remove operation pack the particle \<open>d_scan ! idx\<close>
  (a slot at or above \<open>n_keep\<close>) into its transfer element, and let that element be entry
  \<open>k\<close> of the buffer given to the append operation. Then the appended slot
  \<open>old_nparticles + k\<close> holds the particle's original position, velocity and tag, and its
  original status word with the bits of the mask cleared. The buffers are large enough
  and the new particle count fits an \<^verbatim>\<open>unsigned int\<close>.\<close>

theorem remove_add_roundtrip:
  assumes "n_keep \<le> idx" and "idx < N" and "idx - n_keep < length (d_out buf)"
    and "d_in ! k = d_out (remove_particles buf n_keep src d_scan N) ! (idx - n_keep)"
    and "k < num_add_ptls" and "old_nparticles + num_add_ptls \<le> 2 ^ 32"
    and "old_nparticles + k < length (d_pos dst)" and "old_nparticles + k < length (d_vel dst)"
    and "old_nparticles + k < length (d_tag dst)"
    and "old_nparticles + k < length (d_comm_flags dst)"
  shows "d_pos (add_particles old_nparticles num_add_ptls dst d_in bitmask) ! (old_nparticles + k)
           = d_pos src ! (d_scan ! idx)
       \<and> d_vel (add_particles old_nparticles num_add_ptls dst d_in bitmask) ! (old_nparticles + k)
           = d_vel src ! (d_scan ! idx)
       \<and> d_tag (add_particles old_nparticles num_add_ptls dst d_in bitmask) ! (old_nparticles + k)
           = d_tag src ! (d_scan ! idx)
       \<and> d_comm_flags (add_particles old_nparticles num_add_ptls dst d_in bitmask) ! (old_nparticles + k)
           = d_comm_flags src ! (d_scan ! idx) AND NOT bitmask"
proof -
  have elem: "d_in ! k = \<lparr>pos = d_pos src ! (d_scan ! idx), vel = d_vel src ! (d_scan ! idx),
          tag = d_tag src ! (d_scan ! idx), comm_flag = d_comm_flags src ! (d_scan ! idx)\<rparr>"
    using assms(4) remove_particles_packs [OF assms(1-3)] by simp
  show ?thesis
    using add_particles_writes [OF assms(6) assms(5), of dst d_in bitmask] assms(7-10)
    by (simp add: elem)
qed

text \<open>The statement for a particle with status word 5 and mask 1.\<close>

theorem remove_add_roundtrip_witness:
  "let src = \<lparr>d_pos = [make_scalar4 1 2 3 0, make_scalar4 4 5 6 1],
              d_vel = [make_scalar4 0 0 1 1, make_scalar4 7 8 9 2],
              d_tag = [10, 11], d_comm_flags = [0, 5]\<rparr>;
       buf = \<lparr>d_out = [\<lparr>pos = make_scalar4 0 0 0 0, vel = make_scalar4 0 0 0 0, tag = 0, comm_flag = 0\<rparr>],
              d_pos_alt = [], d_vel_alt = [], d_tag_alt = [], d_comm_flags_alt = []\<rparr>;
       dst = \<lparr>d_pos = [make_scalar4 0 0 0 0, make_scalar4 0 0 0 0],
              d_vel = [make_scalar4 0 0 0 0, make_scalar4 0 0 0 0],
              d_tag = [3, 0], d_comm_flags = [0, 0]\<rparr>;
       d_in = d_out (remove_particles buf 1 src [0, 1] 2);
       r = add_particles 1 1 dst d_in 1
   in (1::nat) \<le> 1 \<and> (1::nat) < 2 \<and> 1 - 1 < length (d_out buf)
      \<and> (0::nat) < 1 \<and> (1::nat) + 1 \<le> 2 ^ 32
      \<and> 1 + 0 < length (d_pos dst) \<and> 1 + 0 < length (d_vel dst)
      \<and> 1 + 0 < length (d_tag dst) \<and> 1 + 0 < length (d_comm_flags dst)
      \<and> d_pos r ! 1 = make_scalar4 4 5 6 1 \<and> d_vel r ! 1 = make_scalar4 7 8 9 2
      \<and> d_tag r ! 1 = 11 \<and> d_comm_flags r ! 1 = 4"
  using remove_add_roundtrip [of 1 1 2
      "\<lparr>d_out = [\<lparr>pos = make_scalar4 0 0 0 0, vel = make_scalar4 0 0 0 0, tag = 0, comm_flag = 0\<rparr>],
              d_pos_alt = [], d_vel_alt = [], d_tag_alt = [], d_comm_flags_alt = []\<rparr>"
      "d_out (remove_particles \<lparr>d_out = [\<lparr>pos = make_scalar4 0 0 0 0, vel = make_scalar4 0 0 0 0, tag = 0, comm_flag = 0\<rparr>],
              d_pos_alt = [], d_vel_alt = [], d_tag_alt = [], d_comm_flags_alt = []\<rparr> 1
          \<lparr>d_pos = [make_scalar4 1 2 3 0, make_scalar4 4 5 6 1],
              d_vel = [make_scalar4 0 0 1 1, make_scalar4 7 8 9 2],
              d_tag = [10, 11], d_comm_flags = [0, 5]\<rparr> [0, 1] 2)"
      0
      "\<lparr>d_pos = [make_scalar4 1 2 3 0, make_scalar4 4 5 6 1],
              d_vel = [make_scalar4 0 0 1 1, make_scalar4 7 8 9 2],
              d_tag = [10, 11], d_comm_flags = [0, 5]\<rparr>"
      "[0, 1]" 1 1
      "\<lparr>d_pos = [make_scalar4 0 0 0 0, make_scalar4 0 0 0 0],
              d_vel = [make_scalar4 0 0 0 0, make_scalar4 0 0 0 0],
              d_tag = [3, 0], d_comm_flags = [0, 0]\<rparr>" 1]
  by (simp add: Let_def)

text \<open>Claim C9. Frame property of append: every position, velocity, tag and status entry
  at an index outside \<open>old_nparticles ..< old_nparticles + num_add_ptls\<close>, in particular
  every entry below \<open>old_nparticles\<close>, is left unchanged, and no array changes its length.
  The new particle count fits an \<^verbatim>\<open>unsigned int\<close>.\<close>

theorem add_particles_frame:
  assumes "old_nparticles + num_add_ptls \<le> 2 ^ 32"
    and "j < old_nparticles \<or> old_nparticles + num_add_ptls \<le> j"
  shows "d_pos (add_particles old_nparticles num_add_ptls st d_in bitmask) ! j = d_pos st ! j
       \<and> d_vel (add_particles old_nparticles num_add_ptls st d_in bitmask) ! j = d_vel st ! j
       \<and> d_tag (add_particles old_nparticles num_add_ptls st d_in bitmask) ! j = d_tag st ! j
       \<and> d_comm_flags (add_particles old_nparticles num_add_ptls st d_in bitmask) ! j
           = d_comm_flags st ! j
       \<and> length (d_pos (add_particles old_nparticles num_add_ptls st d_in bitmask)) = length (d_pos st)
       \<and> length (d_vel (add_particles old_nparticles num_add_ptls st d_in bitmask)) = length (d_vel st)
       \<and> length (d_tag (add_particles old_nparticles num_add_ptls st d_in bitmask)) = length (d_tag st)
       \<and> length (d_comm_flags (add_particles old_nparticles num_add_ptls st d_in bitmask))
           = length (d_comm_flags st)"
  by (simp add: add_particles_untouched [OF assms] add_particles_lengths)

text \<open>The statement for one particle appended behind one local particle.\<close>

theorem add_particles_frame_witness:
  "let st = \<lparr>d_pos = [make_scalar4 1 2 3 0, make_scalar4 0 0 0 0],
             d_vel = [make_scalar4 4 5 6 1, make_scalar4 0 0 0 0],
             d_tag = [8, 0], d_comm_flags = [2, 0]\<rparr>;
       r = add_particles 1 1 st [\<lparr>pos = make_scalar4 9 9 9 0, vel = make_scalar4 1 1 1 1, tag = 5, comm_flag = 1\<rparr>] 1
   in (1::nat) + 1 \<le> 2 ^ 32 \<and> ((0::nat) < 1 \<or> (1::nat) + 1 \<le> 0)
      \<and> d_pos r ! 0 = make_scalar4 1 2 3 0 \<and> d_vel r ! 0 = make_scalar4 4 5 6 1
      \<and> d_tag r ! 0 = 8 \<and> d_comm_flags r ! 0 = 2
      \<and> length (d_pos r) = 2 \<and> length (d_vel r) = 2 \<and> length (d_tag r) = 2
      \<and> length (d_comm_flags r) = 2"
  using add_particles_frame [of 1 1 0
      "\<lparr>d_pos = [make_scalar4 1 2 3 0, make_scalar4 0 0 0 0],
             d_vel = [make_scalar4 4 5 6 1, make_scalar4 0 0 0 0],
             d_tag = [8, 0], d_comm_flags = [2, 0]\<rparr>"
      "[\<lparr>pos = make_scalar4 9 9 9 0, vel = make_scalar4 1 1 1 1, tag = 5, comm_flag = 1\<rparr>]" 1]
  by (simp add: Let_def)

section \<open>The solve pipeline\<close>

lemma dirty_branch:
  assumes "m_nnz_tot st \<noteq> new_nnz \<or> m_constraints_dirty st"
  shows "computeConstraintForces st new_nnz singularity =
     (if 0 \<le> singularity
      then \<lparr>members = st\<lparr>m_nnz_tot := new_nnz, m_constraints_dirty := False\<rparr>,
            calls = [cusparseDnnz, cusparseDdense2csr] @ factorization_calls,
            error_stream = [''Singular constraint matrix.''],
            thrown = Some (''Error computing constraint forces'' @ [CHR 0x0A])\<rparr>
      else \<lparr>members = st\<lparr>m_nnz_tot := new_nnz, m_constraints_dirty := False,
                          m_cusolver_rf_initialized := True\<rparr>,
            calls = [cusparseDnnz, cusparseDdense2csr] @ factorization_calls
                    @ extraction_calls (m_cusolver_rf_initialized st) @ refactor_solve_calls,
            error_stream = [], thrown = None\<rparr>)"
  using assms by (auto simp: computeConstraintForces_def gpu_dense2sparse_def)

lemma clean_branch:
  assumes "m_nnz_tot st = new_nnz" and "\<not> m_constraints_dirty st"
  shows "computeConstraintForces st new_nnz singularity =
     \<lparr>members = st\<lparr>m_nnz_tot := new_nnz, m_constraints_dirty := False\<rparr>,
      calls = [cusparseDnnz, cusparseDdense2csr] @ refactor_solve_calls,
      error_stream = [], thrown = None\<rparr>"
  using assms by (simp add: computeConstraintForces_def gpu_dense2sparse_def)

text \<open>Claim C5. On the full-factorization path (the nonzero count changed or the dirty
  flag was set) the call throws, and writes the line "Singular constraint matrix." to the
  error stream, if and only if the zero-pivot check reported a position \<open>0 \<le> singularity\<close>.
  When it throws, the zero-pivot check is the last call made: neither the factor
  extraction nor the refactorization, the solve or the force kernel run. When no zero
  pivot is reported the calls go on with the factor extraction.\<close>

theorem singular_matrix_is_fatal:
  assumes "m_nnz_tot st \<noteq> new_nnz \<or> m_constraints_dirty st"
  shows "(thrown (computeConstraintForces st new_nnz singularity) \<noteq> None \<longleftrightarrow> 0 \<le> singularity)
       \<and> (error_stream (computeConstraintForces st new_nnz singularity)
             = [''Singular constraint matrix.''] \<longleftrightarrow> 0 \<le> singularity)
       \<and> (0 \<le> singularity \<longrightarrow>
             calls (computeConstraintForces st new_nnz singularity)
               = [cusparseDnnz, cusparseDdense2csr] @ factorization_calls
           \<and> last (calls (computeConstraintForces st new_nnz singularity))
               = cusolverSpDcsrluZeroPivotHost
           \<and> cusolverRfSolve \<notin> set (calls (computeConstraintForces st new_nnz singularity))
           \<and> gpu_compute_constraint_forces_call
               \<notin> set (calls (computeConstraintForces st new_nnz singularity)))
       \<and> (singularity < 0 \<longrightarrow>
             calls (computeConstraintForces st new_nnz singularity)
               = [cusparseDnnz, cusparseDdense2csr] @ factorization_calls
                 @ extraction_calls (m_cusolver_rf_initialized st) @ refactor_solve_calls
           \<and> cusolverSpDcsrluExtractHost
               \<in> set (calls (computeConstraintForces st new_nnz singularity)))"
  unfolding dirty_branch [OF assms]
  by (simp add: factorization_calls_def extraction_calls_def refactor_solve_calls_def)

text \<open>The statement for a changed nonzero count and a zero pivot at position 2.\<close>

theorem singular_matrix_is_fatal_witness:
  "m_nnz_tot \<lparr>m_nnz_tot = 3, m_constraints_dirty = False, m_cusolver_rf_initialized = True\<rparr> \<noteq> 4
   \<and> (0::int) \<le> 2
   \<and> thrown (computeConstraintForces
        \<lparr>m_nnz_tot = 3, m_constraints_dirty = False, m_cusolver_rf_initialized = True\<rparr> 4 2) \<noteq> None
   \<and> cusolverRfSolve \<notin> set (calls (computeConstraintForces
        \<lparr>m_nnz_tot = 3, m_constraints_dirty = False, m_cusolver_rf_initialized = True\<rparr> 4 2))"
  using singular_matrix_is_fatal
    [of "\<lparr>m_nnz_tot = 3, m_constraints_dirty = False, m_cusolver_rf_initialized = True\<rparr>" 4 2]
  by (simp add: factorization_calls_def)

text \<open>Claim C6, as stated, fails. A clean step (count unchanged, flag not set) makes the
  dense-to-sparse conversion too, so its calls are not only reset values,
  refactorization and solve; and a step with the flag set that meets a zero pivot stops
  before the handle set-up.\<close>

theorem clean_step_converts_singular_step_stops:
  "cusparseDdense2csr \<in> set (calls (computeConstraintForces
        \<lparr>m_nnz_tot = 3, m_constraints_dirty = False, m_cusolver_rf_initialized = True\<rparr> 3 (- 1)))
   \<and> calls (computeConstraintForces
        \<lparr>m_nnz_tot = 3, m_constraints_dirty = False, m_cusolver_rf_initialized = True\<rparr> 3 (- 1))
       \<noteq> [cusolverRfResetValues, cusolverRfRefactor, cusolverRfSolve]
   \<and> cusolverRfSetupHost \<notin> set (calls (computeConstraintForces
        \<lparr>m_nnz_tot = 3, m_constraints_dirty = True, m_cusolver_rf_initialized = True\<rparr> 3 2))"
  by (simp add: computeConstraintForces_def gpu_dense2sparse_def factorization_calls_def
      refactor_solve_calls_def)

text \<open>Claim C6, amended. Every call first makes the dense-to-sparse conversion. The calls of
  the factorization (reordering, permutation, symbolic analysis, LU factorization,
  zero-pivot check) follow exactly when the new nonzero count differs from the stored one
  or the dirty flag is set; when no zero pivot is reported they go on with extraction and
  handle set-up, then reset values, refactorization, solve and the force kernel, and when
  one is reported the zero-pivot check is the last call. Otherwise the conversion is
  followed only by reset values, refactorization and solve, then the force kernel, and
  nothing is thrown. After every call the dirty flag is cleared and the stored nonzero
  count is the new one.\<close>

theorem dirty_path_exactly_when_changed:
  "(cusolverSpDcsrluFactorHost \<in> set (calls (computeConstraintForces st new_nnz singularity))
      \<longleftrightarrow> m_nnz_tot st \<noteq> new_nnz \<or> m_constraints_dirty st)
   \<and> ((m_nnz_tot st \<noteq> new_nnz \<or> m_constraints_dirty st) \<and> singularity < 0 \<longrightarrow>
         calls (computeConstraintForces st new_nnz singularity)
           = [cusparseDnnz, cusparseDdense2csr,
              cusolverSpCreate, cusolverSpXcsrsymrcmHost, cusolverSpXcsrperm_bufferSizeHost,
              cusolverSpXcsrpermHost, cusolverSpCreateCsrluInfoHost, cusolverSpXcsrluAnalysisHost,
              cusolverSpDcsrluBufferInfoHost, cusolverSpDcsrluFactorHost,
              cusolverSpDcsrluZeroPivotHost,
              cusolverSpXcsrluNnzHost, cusolverSpDcsrluExtractHost,
              cusolverSpDestroyCsrluInfoHost, cusolverSpDestroy]
             @ (if m_cusolver_rf_initialized st then []
                else [cusolverRfCreate, cusolverRfSetNumericProperties, cusolverRfSetAlgs,
                      cusolverRfSetMatrixFormat])
             @ [cusolverRfSetupHost, cusolverRfAnalyze,
                cusolverRfResetValues, cusolverRfRefactor, cusolverRfSolve,
                gpu_compute_constraint_forces_call])
   \<and> ((m_nnz_tot st \<noteq> new_nnz \<or> m_constraints_dirty st) \<and> 0 \<le> singularity \<longrightarrow>
         calls (computeConstraintForces st new_nnz singularity)
           = [cusparseDnnz, cusparseDdense2csr,
              cusolverSpCreate, cusolverSpXcsrsymrcmHost, cusolverSpXcsrperm_bufferSizeHost,
              cusolverSpXcsrpermHost, cusolverSpCreateCsrluInfoHost, cusolverSpXcsrluAnalysisHost,
              cusolverSpDcsrluBufferInfoHost, cusolverSpDcsrluFactorHost,
              cusolverSpDcsrluZeroPivotHost])
   \<and> (\<not> (m_nnz_tot st \<noteq> new_nnz \<or> m_constraints_dirty st) \<longrightarrow>
         calls (computeConstraintForces st new_nnz singularity)
           = [cusparseDnnz, cusparseDdense2csr,
              cusolverRfResetValues, cusolverRfRefactor, cusolverRfSolve,
              gpu_compute_constraint_forces_call]
         \<and> thrown (computeConstraintForces st new_nnz singularity) = None)
   \<and> m_constraints_dirty (members (computeConstraintForces st new_nnz singularity)) = False
   \<and> m_nnz_tot (members (computeConstraintForces st new_nnz singularity)) = new_nnz"
proof (cases "m_nnz_tot st \<noteq> new_nnz \<or> m_constraints_dirty st")
  case True
  show ?thesis
    unfolding dirty_branch [OF True] using True
    by (simp add: factorization_calls_def extraction_calls_def refactor_solve_calls_def)
next
  case False
  then have c: "m_nnz_tot st = new_nnz" "\<not> m_constraints_dirty st" by simp_all
  show ?thesis
    unfolding clean_branch [OF c] using c
    by (simp add: refactor_solve_calls_def)
qed

text \<open>The statement for a set dirty flag and for a clean step, the count unchanged.\<close>

theorem dirty_path_exactly_when_changed_witness:
  "cusolverSpDcsrluFactorHost \<in> set (calls (computeConstraintForces
        \<lparr>m_nnz_tot = 3, m_constraints_dirty = True, m_cusolver_rf_initialized = True\<rparr> 3 (- 1)))
   \<and> cusolverSpDcsrluFactorHost \<notin> set (calls (computeConstraintForces
        \<lparr>m_nnz_tot = 3, m_constraints_dirty = False, m_cusolver_rf_initialized = True\<rparr> 3 (- 1)))
   \<and> calls (computeConstraintForces
        \<lparr>m_nnz_tot = 3, m_constraints_dirty = False, m_cusolver_rf_initialized = True\<rparr> 3 (- 1))
       = [cusparseDnnz, cusparseDdense2csr,
          cusolverRfResetValues, cusolverRfRefactor, cusolverRfSolve,
          gpu_compute_constraint_forces_call]
   \<and> m_constraints_dirty (members (computeConstraintForces
        \<lparr>m_nnz_tot = 3, m_constraints_dirty = True, m_cusolver_rf_initialized = True\<rparr> 3 (- 1))) = False"
  using dirty_path_exactly_when_changed
    [of "\<lparr>m_nnz_tot = 3, m_constraints_dirty = True, m_cusolver_rf_initialized = True\<rparr>" 3 "- 1"]
    dirty_path_exactly_when_changed
    [of "\<lparr>m_nnz_tot = 3, m_constraints_dirty = False, m_cusolver_rf_initialized = True\<rparr>" 3 "- 1"]
  by simp

section \<open>The matrix-fill pass\<close>

lemma apply_store_lengths:
  "length (d_matrix (fold apply_store ws st)) = length (d_matrix st)"
  "length (d_vec (fold apply_store ws st)) = length (d_vec st)"
proof (induction ws arbitrary: st)
  case Nil
  { case 1 show ?case by simp next case 2 show ?case by simp }
next
  case (Cons w ws)
  { case 1 show ?case using Cons(1) by (cases w) simp_all
  next case 2 show ?case using Cons(2) by (cases w) simp_all }
qed

lemma matrix_last_store:
  "k < length (d_matrix st) \<Longrightarrow>
   d_matrix (fold apply_store ws st) ! k = last (d_matrix st ! k # matrix_stores k ws)"
proof (induction ws arbitrary: st)
  case Nil
  then show ?case by simp
next
  case (Cons w ws)
  show ?case
  proof (cases w)
    case (MatrixStore k' v)
    then show ?thesis using Cons.IH [of "apply_store w st"] Cons.prems by simp
  next
    case (VecStore n v)
    then show ?thesis using Cons.IH [of "apply_store w st"] Cons.prems by simp
  qed
qed

lemma vec_last_store:
  "n < length (d_vec st) \<Longrightarrow>
   d_vec (fold apply_store ws st) ! n = last (d_vec st ! n # vec_stores n ws)"
proof (induction ws arbitrary: st)
  case Nil
  then show ?case by simp
next
  case (Cons w ws)
  show ?case
  proof (cases w)
    case (MatrixStore k' v)
    then show ?thesis using Cons.IH [of "apply_store w st"] Cons.prems by simp
  next
    case (VecStore n' v)
    then show ?thesis using Cons.IH [of "apply_store w st"] Cons.prems by simp
  qed
qed

lemma memset_zero_nth: "k < count \<Longrightarrow> k < length xs \<Longrightarrow> memset_zero xs count ! k = 0"
  by (simp add: memset_zero_def nth_append)

lemma memset_zero_length: "length (memset_zero xs count) = length xs"
  by (simp add: memset_zero_def)

lemma fill_matrix_cell:
  assumes "k < n_constraint a * n_constraint a" and "k < length (d_matrix st)"
  shows "d_matrix (gpu_fill_matrix_vector max_block_size a st block_size) ! k =
         last (0 # matrix_stores k (fill_stores a
                 (nptl_local a div min block_size max_block_size + 1)
                 (min block_size max_block_size)))"
  unfolding gpu_fill_matrix_vector_def Let_def
  using assms by (simp add: matrix_last_store memset_zero_length memset_zero_nth)

lemma fill_vec_entry:
  assumes "n < n_constraint a" and "n < length (d_vec st)"
  shows "d_vec (gpu_fill_matrix_vector max_block_size a st block_size) ! n =
         last (0 # vec_stores n (fill_stores a
                 (nptl_local a div min block_size max_block_size + 1)
                 (min block_size max_block_size)))"
  unfolding gpu_fill_matrix_vector_def Let_def
  using assms by (simp add: vec_last_store memset_zero_length memset_zero_nth)

text \<open>Threads beyond the local particles store nothing.\<close>

lemma fill_stores_local:
  assumes "nptl_local a \<le> n_blocks * block_size"
  shows "fill_stores a n_blocks block_size =
         concat (map (gpu_fill_matrix_vector_kernel a) [0..<nptl_local a])"
proof -
  have idle: "concat (map (gpu_fill_matrix_vector_kernel a) js) = []"
    if "\<forall>j\<in>set js. nptl_local a \<le> j" for js
    using that by (induction js) (simp_all add: gpu_fill_matrix_vector_kernel_def)
  have "[0..<n_blocks * block_size] = [0..<nptl_local a] @ [nptl_local a..<n_blocks * block_size]"
    using assms by (metis le_add_diff_inverse upt_add_eq_append zero_le)
  then show ?thesis
    by (simp add: fill_stores_def idle)
qed

lemma two_particles_stores:
  "fill_stores two_particles 1 32 = [MatrixStore 0 8, VecStore 0 0, MatrixStore 0 8]"
proof -
  have "fill_stores two_particles 1 32 =
        concat (map (gpu_fill_matrix_vector_kernel two_particles) [0..<nptl_local two_particles])"
    by (rule fill_stores_local) (simp add: two_particles_def)
  also have "[0..<nptl_local two_particles] = [0, 1]"
    unfolding two_particles_def by simp code_simp
  finally show ?thesis
    by (simp add: two_particles_def gpu_fill_matrix_vector_kernel_def fill_outer_def fill_inner_def
        ordered_ends_def vec3_of_def vsub_def vadd_def vscale_def vdiv_def dot_def Let_def)
qed

text \<open>Claim C2, as stated, fails. In the two-particle system both threads reach the pair
  (constraint 0, constraint 0) and each stores the complete element 8 into cell 0. The
  cell holds 8 after the pass, not the sum 16 of the values stored to it.\<close>

theorem matrix_cell_not_accumulated:
  "matrix_stores 0 (fill_stores two_particles 1 32) = [8, 8]
   \<and> d_matrix (gpu_fill_matrix_vector 1024 two_particles \<lparr>d_matrix = [5], d_vec = [5]\<rparr> 32) ! 0 = 8
   \<and> d_matrix (gpu_fill_matrix_vector 1024 two_particles \<lparr>d_matrix = [5], d_vec = [5]\<rparr> 32) ! 0
       \<noteq> sum_list (matrix_stores 0 (fill_stores two_particles 1 32))"
proof -
  have nb: "min (32::nat) 1024 = 32" "nptl_local two_particles div 32 + 1 = 1"
    by (simp_all add: two_particles_def)
  have "0 < n_constraint two_particles * n_constraint two_particles"
    and "0 < length (d_matrix \<lparr>d_matrix = [5], d_vec = [5]\<rparr>)"
    by (simp_all add: two_particles_def)
  then have cell: "d_matrix (gpu_fill_matrix_vector 1024 two_particles \<lparr>d_matrix = [5], d_vec = [5]\<rparr> 32) ! 0
        = last (0 # matrix_stores 0 (fill_stores two_particles 1 32))"
    using fill_matrix_cell [of 0 two_particles "\<lparr>d_matrix = [5], d_vec = [5]\<rparr>" 1024 32]
    unfolding nb by blast
  show ?thesis unfolding cell two_particles_stores by simp
qed

lemma matrix_stores_append: "matrix_stores k (ws @ ws') = matrix_stores k ws @ matrix_stores k ws'"
  by (induction k ws rule: matrix_stores.induct) simp_all

lemma matrix_stores_concat: "matrix_stores k (concat wss) = concat (map (matrix_stores k) wss)"
  by (induction wss) (simp_all add: matrix_stores_append)

lemma matrix_stores_map:
  "matrix_stores k (map (\<lambda>j. MatrixStore (c j) (v j)) js) = map v (filter (\<lambda>j. c j = k) js)"
  by (induction js) simp_all

lemma fill_inner_pair:
  "fill_inner a (idx1 (slot_entry a (p, ci)))
     (fst (ordered_ends (slot_cpos a (p, ci)) p (idx0 (slot_entry a (p, ci)))))
     (snd (ordered_ends (slot_cpos a (p, ci)) p (idx0 (slot_entry a (p, ci)))))
     (predicted_separation a
        (fst (ordered_ends (slot_cpos a (p, ci)) p (idx0 (slot_entry a (p, ci)))))
        (snd (ordered_ends (slot_cpos a (p, ci)) p (idx0 (slot_entry a (p, ci))))))
     (s4_w (md_vel a ! fst (ordered_ends (slot_cpos a (p, ci)) p (idx0 (slot_entry a (p, ci))))))
     (s4_w (md_vel a ! snd (ordered_ends (slot_cpos a (p, ci)) p (idx0 (slot_entry a (p, ci))))))
     (idx0 (slot_entry a (p, ci))) cj
   = MatrixStore (pair_cell a (p, ci, cj)) (pair_value a (p, ci, cj))"
  by (simp add: fill_inner_def pair_cell_def pair_value_def pair_element_def separation_def
      slot_entry_def slot_cpos_def Let_def case_prod_beta)

lemma matrix_stores_outer:
  "matrix_stores k (fill_outer a p ci) =
   map (pair_value a) (filter (\<lambda>t. pair_cell a t = k)
     (map (\<lambda>cj. (p, ci, cj)) [0..<d_gpu_n_constraints a ! idx0 (slot_entry a (p, ci))]))"
proof -
  let ?js = "[0..<d_gpu_n_constraints a ! idx0 (slot_entry a (p, ci))]"
  let ?ends = "ordered_ends (slot_cpos a (p, ci)) p (idx0 (slot_entry a (p, ci)))"
  have "matrix_stores k (fill_outer a p ci) =
        matrix_stores k (map (fill_inner a (idx1 (slot_entry a (p, ci))) (fst ?ends) (snd ?ends)
           (predicted_separation a (fst ?ends) (snd ?ends))
           (s4_w (md_vel a ! fst ?ends)) (s4_w (md_vel a ! snd ?ends))
           (idx0 (slot_entry a (p, ci)))) ?js)"
    by (simp add: fill_outer_def Let_def case_prod_beta matrix_stores_append
        predicted_separation_def separation_def slot_entry_def slot_cpos_def)
  also have "\<dots> = matrix_stores k
       (map (\<lambda>cj. MatrixStore (pair_cell a (p, ci, cj)) (pair_value a (p, ci, cj))) ?js)"
    by (rule arg_cong [where f = "matrix_stores k"], rule map_cong) (simp_all add: fill_inner_pair)
  also have "\<dots> = map (\<lambda>cj. pair_value a (p, ci, cj)) (filter (\<lambda>cj. pair_cell a (p, ci, cj) = k) ?js)"
    by (rule matrix_stores_map)
  also have "\<dots> = map (pair_value a) (filter (\<lambda>t. pair_cell a t = k) (map (\<lambda>cj. (p, ci, cj)) ?js))"
    by (simp add: filter_map comp_def)
  finally show ?thesis .
qed

lemma matrix_stores_thread:
  "idx < nptl_local a \<Longrightarrow>
   matrix_stores k (gpu_fill_matrix_vector_kernel a idx) =
   map (pair_value a) (filter (\<lambda>t. pair_cell a t = k)
     (concat (map (\<lambda>ci. map (\<lambda>cj. (idx, ci, cj))
                            [0..<d_gpu_n_constraints a ! idx0 (slot_entry a (idx, ci))])
                  [0..<d_gpu_n_constraints a ! idx])))"
  by (simp add: gpu_fill_matrix_vector_kernel_def matrix_stores_concat comp_def
      matrix_stores_outer map_concat filter_concat)

lemma concat_concat_map: "concat (concat (map f xs)) = concat (map (\<lambda>x. concat (f x)) xs)"
  by (induction xs) simp_all

lemma constraint_pairs_nested:
  "constraint_pairs a =
   concat (map (\<lambda>idx. concat (map (\<lambda>ci. map (\<lambda>cj. (idx, ci, cj))
                            [0..<d_gpu_n_constraints a ! idx0 (slot_entry a (idx, ci))])
                  [0..<d_gpu_n_constraints a ! idx])) [0..<nptl_local a])"
  by (simp add: constraint_pairs_def table_slots_def map_concat comp_def concat_concat_map)

lemma matrix_stores_launch:
  assumes "nptl_local a \<le> n_blocks * block_size"
  shows "matrix_stores k (fill_stores a n_blocks block_size) =
         map (pair_value a) (filter (\<lambda>t. pair_cell a t = k) (constraint_pairs a))"
proof -
  have "matrix_stores k (fill_stores a n_blocks block_size) =
        concat (map (\<lambda>idx. matrix_stores k (gpu_fill_matrix_vector_kernel a idx)) [0..<nptl_local a])"
    by (simp add: fill_stores_local [OF assms] matrix_stores_concat comp_def)
  also have "\<dots> = concat (map (\<lambda>idx. map (pair_value a) (filter (\<lambda>t. pair_cell a t = k)
     (concat (map (\<lambda>ci. map (\<lambda>cj. (idx, ci, cj))
                            [0..<d_gpu_n_constraints a ! idx0 (slot_entry a (idx, ci))])
                  [0..<d_gpu_n_constraints a ! idx])))) [0..<nptl_local a])"
    by (rule arg_cong [where f = concat], rule map_cong) (simp_all add: matrix_stores_thread)
  also have "\<dots> = map (pair_value a) (filter (\<lambda>t. pair_cell a t = k) (constraint_pairs a))"
    unfolding constraint_pairs_nested by (simp add: map_concat filter_concat comp_def)
  finally show ?thesis .
qed

text \<open>Claim C2, amended. For every pair of constraints, \<open>n\<close> at a local particle \<open>p\<close> and
  \<open>m\<close> in the row of the neighbour, the kernel adds up the terms \<open>\<plusminus> 4 (q\<^sub>n \<cdot> r\<^sub>m) / mass\<close> of
  the four endpoint-role cases into one matrix element and stores it into cell
  \<open>m * n_constraint + n\<close> by assignment: the stores of a pass to a cell are exactly the
  elements of the pairs that target it, in visiting order, and after the pass the cell
  holds the element of the last such pair, or 0 when there is none. Several stores to one
  cell are not summed.\<close>

theorem matrix_cell_holds_last_pair:
  assumes "k < n_constraint a * n_constraint a" and "k < length (d_matrix st)"
    and "0 < min block_size max_block_size"
  shows "matrix_stores k (fill_stores a (nptl_local a div min block_size max_block_size + 1)
                            (min block_size max_block_size))
           = map (pair_value a) (filter (\<lambda>t. pair_cell a t = k) (constraint_pairs a))
       \<and> d_matrix (gpu_fill_matrix_vector max_block_size a st block_size) ! k
           = last (0 # map (pair_value a) (filter (\<lambda>t. pair_cell a t = k) (constraint_pairs a)))"
proof -
  have stores: "matrix_stores k (fill_stores a (nptl_local a div min block_size max_block_size + 1)
                            (min block_size max_block_size))
           = map (pair_value a) (filter (\<lambda>t. pair_cell a t = k) (constraint_pairs a))"
    using grid_covers [OF assms(3)] by (rule matrix_stores_launch)
  show ?thesis
    unfolding fill_matrix_cell [OF assms(1,2)] stores by simp
qed

lemma two_particles_pairs: "constraint_pairs two_particles = [(0, 0, 0), (1, 0, 0)]"
proof -
  have "[0..<nptl_local two_particles] = [0, 1]"
    unfolding two_particles_def by simp code_simp
  then show ?thesis
    by (simp add: constraint_pairs_def table_slots_def slot_entry_def two_particles_def)
qed

lemma two_particles_pair_values:
  "pair_cell two_particles (0, 0, 0) = 0" "pair_cell two_particles (1, 0, 0) = 0"
  "pair_value two_particles (0, 0, 0) = 8" "pair_value two_particles (1, 0, 0) = 8"
  by (simp_all add: pair_cell_def pair_value_def pair_element_def predicted_separation_def
      separation_def slot_entry_def slot_cpos_def ordered_ends_def two_particles_def
      vec3_of_def vsub_def vadd_def vscale_def dot_def Let_def)

text \<open>The statement for cell 0 of the two-particle system, targeted by two pairs.\<close>

theorem matrix_cell_holds_last_pair_witness:
  "0 < n_constraint two_particles * n_constraint two_particles
   \<and> 0 < length (d_matrix \<lparr>d_matrix = [5], d_vec = [5]\<rparr>)
   \<and> 0 < min (32::nat) 1024
   \<and> constraint_pairs two_particles = [(0, 0, 0), (1, 0, 0)]
   \<and> pair_value two_particles (0, 0, 0) = 8 \<and> pair_value two_particles (1, 0, 0) = 8
   \<and> matrix_stores 0 (fill_stores two_particles 1 32) = [8, 8]
   \<and> d_matrix (gpu_fill_matrix_vector 1024 two_particles \<lparr>d_matrix = [5], d_vec = [5]\<rparr> 32) ! 0 = 8"
proof -
  have nb: "min (32::nat) 1024 = 32" "nptl_local two_particles div 32 + 1 = 1"
    by (simp_all add: two_particles_def)
  have h: "0 < n_constraint two_particles * n_constraint two_particles"
    "0 < length (d_matrix \<lparr>d_matrix = [5], d_vec = [5]\<rparr>)" "0 < min (32::nat) 1024"
    by (simp_all add: two_particles_def)
  have rhs: "map (pair_value two_particles)
       (filter (\<lambda>t. pair_cell two_particles t = 0) (constraint_pairs two_particles)) = [8, 8]"
    unfolding two_particles_pairs
    by (simp only: filter.simps list.map two_particles_pair_values if_True simp_thms)
  note inst = matrix_cell_holds_last_pair [OF h, unfolded nb rhs]
  show ?thesis
    using inst h two_particles_pairs two_particles_pair_values by simp
qed

lemma ghost_constraint_stores:
  "fill_stores ghost_constraint 1 32 = [MatrixStore 0 8, VecStore 0 0, MatrixStore 0 8]"
proof -
  have "fill_stores ghost_constraint 1 32 =
        concat (map (gpu_fill_matrix_vector_kernel ghost_constraint) [0..<nptl_local ghost_constraint])"
    by (rule fill_stores_local) (simp add: ghost_constraint_def two_particles_def)
  also have "[0..<nptl_local ghost_constraint] = [0, 1]"
    unfolding ghost_constraint_def two_particles_def by simp code_simp
  finally show ?thesis
    by (simp add: ghost_constraint_def two_particles_def gpu_fill_matrix_vector_kernel_def
        fill_outer_def fill_inner_def
        ordered_ends_def vec3_of_def vsub_def vadd_def vscale_def vdiv_def dot_def Let_def)
qed

text \<open>Claim C10. After \<^verbatim>\<open>gpu_fill_matrix_vector\<close>, a matrix cell to which no pass of the
  inner loop stores and a vector entry to which no thread stores are 0: both arrays are
  reset before the kernel runs.\<close>

theorem unwritten_entries_are_zero:
  "(k < n_constraint a * n_constraint a \<and> k < length (d_matrix st)
      \<and> matrix_stores k (fill_stores a (nptl_local a div min block_size max_block_size + 1)
                           (min block_size max_block_size)) = []
     \<longrightarrow> d_matrix (gpu_fill_matrix_vector max_block_size a st block_size) ! k = 0)
   \<and> (n < n_constraint a \<and> n < length (d_vec st)
      \<and> vec_stores n (fill_stores a (nptl_local a div min block_size max_block_size + 1)
                        (min block_size max_block_size)) = []
     \<longrightarrow> d_vec (gpu_fill_matrix_vector max_block_size a st block_size) ! n = 0)"
  by (simp add: fill_matrix_cell fill_vec_entry)

text \<open>The statement for cell 3 and vector entry 1 of the system with a constraint between
  non-local particles.\<close>

theorem unwritten_entries_are_zero_witness:
  "3 < n_constraint ghost_constraint * n_constraint ghost_constraint
   \<and> 3 < length (d_matrix \<lparr>d_matrix = [5, 6, 7, 8], d_vec = [5, 6]\<rparr>)
   \<and> matrix_stores 3 (fill_stores ghost_constraint 1 32) = []
   \<and> d_matrix (gpu_fill_matrix_vector 1024 ghost_constraint \<lparr>d_matrix = [5, 6, 7, 8], d_vec = [5, 6]\<rparr> 32) ! 3 = 0
   \<and> 1 < n_constraint ghost_constraint
   \<and> 1 < length (d_vec \<lparr>d_matrix = [5, 6, 7, 8], d_vec = [5, 6]\<rparr>)
   \<and> vec_stores 1 (fill_stores ghost_constraint 1 32) = []
   \<and> d_vec (gpu_fill_matrix_vector 1024 ghost_constraint \<lparr>d_matrix = [5, 6, 7, 8], d_vec = [5, 6]\<rparr> 32) ! 1 = 0"
proof -
  have nb: "min (32::nat) 1024 = 32" "nptl_local ghost_constraint div 32 + 1 = 1"
    by (simp_all add: ghost_constraint_def two_particles_def)
  have h: "3 < n_constraint ghost_constraint * n_constraint ghost_constraint"
    "3 < length (d_matrix \<lparr>d_matrix = [5, 6, 7, 8], d_vec = [5, 6]\<rparr>)"
    "1 < n_constraint ghost_constraint"
    "1 < length (d_vec \<lparr>d_matrix = [5, 6, 7, 8], d_vec = [5, 6]\<rparr>)"
    by (simp_all add: ghost_constraint_def two_particles_def)
  have e: "matrix_stores 3 (fill_stores ghost_constraint 1 32) = []"
    "vec_stores 1 (fill_stores ghost_constraint 1 32) = []"
    unfolding ghost_constraint_stores by simp_all
  note inst = unwritten_entries_are_zero
      [of 3 ghost_constraint "\<lparr>d_matrix = [5, 6, 7, 8], d_vec = [5, 6]\<rparr>" 32 1024 1, unfolded nb]
  show ?thesis using inst h e by blast
qed

section \<open>Constraint force writeback\<close>

lemma force_step_term:
  "idx < nptl_local a \<Longrightarrow>
   force_step a d_lagrange idx cidx f = vadd f (writeback_term a d_lagrange idx cidx)"
  by (simp add: force_step_def writeback_term_def separation_def ordered_ends_def Let_def)

lemma force_fold_sum:
  "idx < nptl_local a \<Longrightarrow>
   fold (force_step a d_lagrange idx) cs f =
   Vec3 (v3_x f + (\<Sum>c\<leftarrow>cs. v3_x (writeback_term a d_lagrange idx c)))
        (v3_y f + (\<Sum>c\<leftarrow>cs. v3_y (writeback_term a d_lagrange idx c)))
        (v3_z f + (\<Sum>c\<leftarrow>cs. v3_z (writeback_term a d_lagrange idx c)))"
proof (induction cs arbitrary: f)
  case Nil
  then show ?case by simp
next
  case (Cons c cs)
  then show ?case
    by (simp add: force_step_term vadd_def add.assoc)
qed

lemma force_kernel_scatter:
  "gpu_fill_constraint_forces_kernel a d_lagrange =
   (\<lambda>idx xs. if idx < nptl_local a
      then xs[idx := make_scalar4
             (\<Sum>c\<leftarrow>[0..<d_gpu_n_constraints a ! idx]. v3_x (writeback_term a d_lagrange idx c))
             (\<Sum>c\<leftarrow>[0..<d_gpu_n_constraints a ! idx]. v3_y (writeback_term a d_lagrange idx c))
             (\<Sum>c\<leftarrow>[0..<d_gpu_n_constraints a ! idx]. v3_z (writeback_term a d_lagrange idx c)) 0]
      else xs)"
  by (intro ext) (simp add: gpu_fill_constraint_forces_kernel_def Let_def force_fold_sum)

text \<open>Claim C8. For every local particle \<open>i\<close> the force written for \<open>i\<close> is the sum, over
  the entries of its table row, of \<open>\<mp> 2 \<lambda>\<^sub>n r\<^sub>n\<close>: minus when \<open>i\<close> is the first member of the
  constraint (position 0), plus when it is the second, with \<open>r\<^sub>n\<close> the minimum-image
  separation of the first member from the second. The fourth component is 0.\<close>

theorem constraint_force_writeback:
  assumes "i < nptl_local a" and "i < length d_force" and "0 < min block_size max_block_size"
  shows "gpu_compute_constraint_forces max_block_size a d_force block_size d_lagrange ! i =
         make_scalar4
           (\<Sum>cidx\<leftarrow>[0..<d_gpu_n_constraints a ! i]. v3_x (writeback_term a d_lagrange i cidx))
           (\<Sum>cidx\<leftarrow>[0..<d_gpu_n_constraints a ! i]. v3_y (writeback_term a d_lagrange i cidx))
           (\<Sum>cidx\<leftarrow>[0..<d_gpu_n_constraints a ! i]. v3_z (writeback_term a d_lagrange i cidx))
           0"
proof -
  let ?T = "(nptl_local a div min block_size max_block_size + 1) * min block_size max_block_size"
  have "i < ?T"
    using assms(1) grid_covers [OF assms(3), of "nptl_local a"] by linarith
  then have ex: "\<exists>j\<in>set [0..<?T]. j < nptl_local a \<and> j = i"
    using assms(1) by simp
  show ?thesis
    unfolding gpu_compute_constraint_forces_def Let_def launch_def force_kernel_scatter
    by (rule cscatter_hit [where f = "\<lambda>j. j", OF _ ex assms(2)]) simp
qed

text \<open>The statement for particle 1 of the two-particle system and the multiplier 3.\<close>

theorem constraint_force_writeback_witness:
  "1 < nptl_local two_particles
   \<and> 1 < length [make_scalar4 9 9 9 9, make_scalar4 9 9 9 9]
   \<and> 0 < min (32::nat) 1024
   \<and> gpu_compute_constraint_forces 1024 two_particles
        [make_scalar4 9 9 9 9, make_scalar4 9 9 9 9] 32 [3] ! 1 = make_scalar4 6 0 0 0"
proof -
  have h: "1 < nptl_local two_particles"
    "1 < length [make_scalar4 9 9 9 9, make_scalar4 9 9 9 9]" "0 < min (32::nat) 1024"
    by (simp_all add: two_particles_def)
  have r: "[0..<d_gpu_n_constraints two_particles ! 1] = [0]"
    by (simp add: two_particles_def)
  show ?thesis
    using h constraint_force_writeback [OF h, of "[3]"] unfolding r
    by (simp add: writeback_term_def separation_def two_particles_def vscale_def vsub_def
        vec3_of_def Let_def)
qed

section \<open>The right-hand side is written once\<close>

lemma vec_stores_append: "vec_stores n (ws @ ws') = vec_stores n ws @ vec_stores n ws'"
  by (induction n ws rule: vec_stores.induct) simp_all

lemma vec_stores_concat: "vec_stores n (concat wss) = concat (map (vec_stores n) wss)"
  by (induction wss) (simp_all add: vec_stores_append)

lemma vec_stores_inner:
  "vec_stores n (map (fill_inner a n' na nb qn ma mb i) js) = []"
  by (induction js) (simp_all add: fill_inner_def Let_def case_prod_beta)

lemma vec_stores_outer:
  "vec_stores n (fill_outer a idx cidx) =
     (if idx1 (slot_entry a (idx, cidx)) = n \<and> vec_guard a (idx, cidx)
      then [rhs_spec a n (fst (ordered_ends (slot_cpos a (idx, cidx)) idx (idx0 (slot_entry a (idx, cidx)))))
                         (snd (ordered_ends (slot_cpos a (idx, cidx)) idx (idx0 (slot_entry a (idx, cidx)))))]
      else [])"
  by (simp add: fill_outer_def Let_def case_prod_beta vec_stores_append vec_stores_inner
      vec_guard_def slot_entry_def slot_cpos_def rhs_spec_def separation_def power2_eq_square)

lemma concat_if_singleton:
  "concat (map (\<lambda>x. if P x then [f x] else []) xs) = map f (filter P xs)"
  by (induction xs) simp_all

lemma vec_stores_thread:
  "idx < nptl_local a \<Longrightarrow>
   vec_stores n (gpu_fill_matrix_vector_kernel a idx) =
   map (\<lambda>s. rhs_spec a n (fst (ordered_ends (slot_cpos a s) (fst s) (idx0 (slot_entry a s))))
                         (snd (ordered_ends (slot_cpos a s) (fst s) (idx0 (slot_entry a s)))))
     (filter (\<lambda>s. idx1 (slot_entry a s) = n \<and> vec_guard a s)
        (map (Pair idx) [0..<d_gpu_n_constraints a ! idx]))"
  by (simp add: gpu_fill_matrix_vector_kernel_def vec_stores_concat comp_def vec_stores_outer
      concat_if_singleton filter_map map_concat)

lemma table_slots_mem:
  "s \<in> set (table_slots a) \<longleftrightarrow> fst s < nptl_local a \<and> snd s < d_gpu_n_constraints a ! fst s"
proof (cases s)
  case (Pair i c)
  show ?thesis
  proof
    assume "s \<in> set (table_slots a)"
    then show "fst s < nptl_local a \<and> snd s < d_gpu_n_constraints a ! fst s"
      unfolding Pair by (auto simp: table_slots_def)
  next
    assume "fst s < nptl_local a \<and> snd s < d_gpu_n_constraints a ! fst s"
    then have "i \<in> {0..<nptl_local a}" and "(i, c) \<in> Pair i ` {0..<d_gpu_n_constraints a ! i}"
      unfolding Pair by auto
    then show "s \<in> set (table_slots a)"
      unfolding Pair by (auto simp: table_slots_def)
  qed
qed

lemma vec_stores_launch:
  assumes "nptl_local a \<le> n_blocks * block_size"
  shows "vec_stores n (fill_stores a n_blocks block_size) =
     map (\<lambda>s. rhs_spec a n (fst (ordered_ends (slot_cpos a s) (fst s) (idx0 (slot_entry a s))))
                           (snd (ordered_ends (slot_cpos a s) (fst s) (idx0 (slot_entry a s)))))
       (filter (vec_guard a) (slots_of a n))"
proof -
  let ?R = "\<lambda>s. rhs_spec a n (fst (ordered_ends (slot_cpos a s) (fst s) (idx0 (slot_entry a s))))
                           (snd (ordered_ends (slot_cpos a s) (fst s) (idx0 (slot_entry a s))))"
  let ?Q = "\<lambda>s. idx1 (slot_entry a s) = n \<and> vec_guard a s"
  have "vec_stores n (fill_stores a n_blocks block_size) =
        concat (map (\<lambda>idx. vec_stores n (gpu_fill_matrix_vector_kernel a idx)) [0..<nptl_local a])"
    by (simp add: fill_stores_local [OF assms] vec_stores_concat comp_def)
  also have "\<dots> = concat (map (\<lambda>idx. map ?R (filter ?Q (map (Pair idx) [0..<d_gpu_n_constraints a ! idx])))
                       [0..<nptl_local a])"
    by (rule arg_cong [where f = concat], rule map_cong) (simp_all add: vec_stores_thread)
  also have "\<dots> = map ?R (filter ?Q (table_slots a))"
    by (simp add: table_slots_def map_concat filter_concat comp_def)
  also have "filter ?Q (table_slots a) = filter (vec_guard a) (slots_of a n)"
    by (simp add: slots_of_def conj_commute)
  finally show ?thesis .
qed

lemma wf_slot:
  assumes "constraint_in_table a n ia ib" and "s \<in> set (slots_of a n)"
  shows "fst s < nptl_local a"
    and "ordered_ends (slot_cpos a s) (fst s) (idx0 (slot_entry a s)) = (ia, ib)"
    and "vec_guard a s \<longleftrightarrow> slot_cpos a s = 0 \<or> nptl_local a \<le> ia"
    and "slot_cpos a s = 0 \<Longrightarrow> fst s = ia"
    and "slot_cpos a s \<noteq> 0 \<Longrightarrow> fst s = ib"
proof -
  show local: "fst s < nptl_local a"
    using assms(2) by (simp add: slots_of_def table_slots_mem)
  have role: "(slot_cpos a s = 0 \<and> fst s = ia \<and> idx0 (slot_entry a s) = ib)
       \<or> (slot_cpos a s \<noteq> 0 \<and> fst s = ib \<and> idx0 (slot_entry a s) = ia)"
    using assms by (simp add: constraint_in_table_def)
  then show ends: "ordered_ends (slot_cpos a s) (fst s) (idx0 (slot_entry a s)) = (ia, ib)"
    by (auto simp: ordered_ends_def)
  show "vec_guard a s \<longleftrightarrow> slot_cpos a s = 0 \<or> nptl_local a \<le> ia"
    using role local by (auto simp: vec_guard_def ends)
  show "slot_cpos a s = 0 \<Longrightarrow> fst s = ia" using role by auto
  show "slot_cpos a s \<noteq> 0 \<Longrightarrow> fst s = ib" using role by auto
qed

lemma wf_one_writer:
  assumes wf: "constraint_in_table a n ia ib" and loc: "ia < nptl_local a \<or> ib < nptl_local a"
  shows "length (filter (vec_guard a) (slots_of a n)) = 1"
proof (cases "ia < nptl_local a")
  case True
  have "filter (vec_guard a) (slots_of a n) = filter (\<lambda>s. slot_cpos a s = 0) (slots_of a n)"
    by (rule filter_cong [OF refl]) (use True wf_slot(3) [OF wf] in auto)
  then show ?thesis using wf True by (simp add: constraint_in_table_def)
next
  case False
  then have ib: "ib < nptl_local a" using loc by simp
  have "filter (vec_guard a) (slots_of a n) = filter (\<lambda>s. slot_cpos a s \<noteq> 0) (slots_of a n)"
  proof (rule filter_cong [OF refl])
    fix s assume s: "s \<in> set (slots_of a n)"
    have "slot_cpos a s \<noteq> 0"
      using wf_slot(1) [OF wf s] wf_slot(4) [OF wf s] False by auto
    then show "vec_guard a s = (slot_cpos a s \<noteq> 0)"
      using wf_slot(3) [OF wf s] False by simp
  qed
  then show ?thesis using wf ib by (simp add: constraint_in_table_def)
qed

lemma map_const_singleton: "length xs = 1 \<Longrightarrow> \<forall>x\<in>set xs. f x = v \<Longrightarrow> map f xs = [v]"
  by (cases xs) simp_all

lemma wf_vec_stores:
  assumes wf: "constraint_in_table a n ia ib" and loc: "ia < nptl_local a \<or> ib < nptl_local a"
    and grid: "nptl_local a \<le> n_blocks * block_size"
  shows "vec_stores n (fill_stores a n_blocks block_size) = [rhs_spec a n ia ib]"
  unfolding vec_stores_launch [OF grid]
proof (rule map_const_singleton [OF wf_one_writer [OF wf loc]], rule ballI)
  fix s assume "s \<in> set (filter (vec_guard a) (slots_of a n))"
  then have "s \<in> set (slots_of a n)" by simp
  then show "rhs_spec a n (fst (ordered_ends (slot_cpos a s) (fst s) (idx0 (slot_entry a s))))
                         (snd (ordered_ends (slot_cpos a s) (fst s) (idx0 (slot_entry a s))))
             = rhs_spec a n ia ib"
    by (simp add: wf_slot(2) [OF wf])
qed

lemma wf_other_threads:
  assumes wf: "constraint_in_table a n ia ib"
    and other: "idx \<noteq> (if ia < nptl_local a then ia else ib)"
  shows "vec_stores n (gpu_fill_matrix_vector_kernel a idx) = []"
proof (cases "idx < nptl_local a")
  case False
  then show ?thesis by (simp add: gpu_fill_matrix_vector_kernel_def)
next
  case True
  have "\<not> (idx1 (slot_entry a s) = n \<and> vec_guard a s)"
    if "s \<in> set (map (Pair idx) [0..<d_gpu_n_constraints a ! idx])" for s
  proof
    assume q: "idx1 (slot_entry a s) = n \<and> vec_guard a s"
    have fs: "fst s = idx" using that by auto
    have "s \<in> set (table_slots a)"
      using that True by (auto simp: table_slots_mem)
    then have s: "s \<in> set (slots_of a n)" using q by (simp add: slots_of_def)
    show False
    proof (cases "ia < nptl_local a")
      case True
      then have "slot_cpos a s = 0" using wf_slot(3) [OF wf s] q by simp
      then show False using wf_slot(4) [OF wf s] fs other True by simp
    next
      case False
      have "slot_cpos a s \<noteq> 0"
        using wf_slot(1) [OF wf s] wf_slot(4) [OF wf s] False by auto
      then show False using wf_slot(5) [OF wf s] fs other False by simp
    qed
  qed
  then have "filter (\<lambda>s. idx1 (slot_entry a s) = n \<and> vec_guard a s)
        (map (Pair idx) [0..<d_gpu_n_constraints a ! idx]) = []"
    by (simp only: filter_empty_conv) blast
  then show ?thesis by (simp only: vec_stores_thread [OF True] list.map)
qed

text \<open>Claim C7. Let the table be in step with constraint \<open>n\<close> of members \<open>ia\<close>, \<open>ib\<close>, at
  least one of them local. Then a matrix-fill pass stores to \<^verbatim>\<open>d_vec[n]\<close> exactly once, the
  stored value is the right-hand side of the specification, and no thread other than that
  of \<open>ia\<close> (the primary owner) when \<open>ia\<close> is local, or else that of \<open>ib\<close> (a local
  member whose partner is not local), stores to it. The entry holds that value after the
  pass.\<close>

theorem rhs_written_once:
  assumes "constraint_in_table a n ia ib" and "ia < nptl_local a \<or> ib < nptl_local a"
    and "0 < min block_size max_block_size"
  shows "vec_stores n (fill_stores a (nptl_local a div min block_size max_block_size + 1)
                         (min block_size max_block_size)) = [rhs_spec a n ia ib]
       \<and> (\<forall>idx. idx \<noteq> (if ia < nptl_local a then ia else ib) \<longrightarrow>
              vec_stores n (gpu_fill_matrix_vector_kernel a idx) = [])
       \<and> (n < n_constraint a \<and> n < length (d_vec st) \<longrightarrow>
              d_vec (gpu_fill_matrix_vector max_block_size a st block_size) ! n = rhs_spec a n ia ib)"
proof -
  have once: "vec_stores n (fill_stores a (nptl_local a div min block_size max_block_size + 1)
                         (min block_size max_block_size)) = [rhs_spec a n ia ib]"
    using assms(1,2) grid_covers [OF assms(3)] by (rule wf_vec_stores)
  moreover have "\<forall>idx. idx \<noteq> (if ia < nptl_local a then ia else ib) \<longrightarrow>
              vec_stores n (gpu_fill_matrix_vector_kernel a idx) = []"
    using wf_other_threads [OF assms(1)] by blast
  moreover have "d_vec (gpu_fill_matrix_vector max_block_size a st block_size) ! n = rhs_spec a n ia ib"
    if "n < n_constraint a" "n < length (d_vec st)"
    unfolding fill_vec_entry [OF that] once by simp
  ultimately show ?thesis by blast
qed

lemma boundary_pair_table: "constraint_in_table boundary_pair 0 1 0"
  by (simp add: constraint_in_table_def slots_of_def table_slots_def slot_entry_def slot_cpos_def
      boundary_pair_def)

lemma boundary_pair_rhs: "rhs_spec boundary_pair 0 1 0 = 7"
  by (simp add: rhs_spec_def separation_def boundary_pair_def vec3_of_def vsub_def vadd_def
      vscale_def vdiv_def dot_def Let_def)

text \<open>The statement for the constraint across the domain boundary.\<close>

theorem rhs_written_once_witness:
  "0 < nptl_local boundary_pair
   \<and> 0 < min (32::nat) 1024
   \<and> vec_stores 0 (fill_stores boundary_pair 1 32) = [7]
   \<and> vec_stores 0 (gpu_fill_matrix_vector_kernel boundary_pair 1) = []
   \<and> d_vec (gpu_fill_matrix_vector 1024 boundary_pair \<lparr>d_matrix = [5], d_vec = [5]\<rparr> 32) ! 0 = 7"
proof -
  have nb: "min (32::nat) 1024 = 32" "nptl_local boundary_pair div 32 + 1 = 1"
    by (simp_all add: boundary_pair_def)
  have h: "1 < nptl_local boundary_pair \<or> 0 < nptl_local boundary_pair" "0 < min (32::nat) 1024"
    by (simp_all add: boundary_pair_def)
  have w: "(if 1 < nptl_local boundary_pair then 1 else 0) = (0::nat)"
    by (simp add: boundary_pair_def)
  have r: "0 < n_constraint boundary_pair \<and> 0 < length (d_vec \<lparr>d_matrix = [5], d_vec = [5]\<rparr>)"
    by (simp add: boundary_pair_def)
  note inst = rhs_written_once [OF boundary_pair_table h,
      of "\<lparr>d_matrix = [5], d_vec = [5]\<rparr>", unfolded nb w boundary_pair_rhs]
  show ?thesis
    using inst h r by (auto simp: boundary_pair_def)
qed

end
